theory Spec2Isabelle
  imports Complex_Main
begin

section \<open>Numbers\<close>

text \<open>
  The simulation of \<^verbatim>\<open>src/App.tsx\<close> computes with JavaScript numbers. Coordinates flow
  through the division of the kinematics step, so they are modelled by \<open>jsnum\<close>: an exact
  real, or one of the three special values a division can produce. Rounding and the sign
  of zero are not modelled. Quantities that are only ever built from finite constants by
  addition, subtraction, multiplication and \<open>max\<close> (radius, alpha, life, speed, time) are
  \<open>real\<close>; counters (score, ammo, round) are \<open>int\<close>.
\<close>

datatype jsnum = NaN | NInf | Fin real | PInf

fun nneg :: "jsnum \<Rightarrow> jsnum" where
  "nneg NaN = NaN"
| "nneg NInf = PInf"
| "nneg (Fin a) = Fin (- a)"
| "nneg PInf = NInf"

fun nadd :: "jsnum \<Rightarrow> jsnum \<Rightarrow> jsnum" where
  "nadd (Fin a) (Fin b) = Fin (a + b)"
| "nadd NaN b = NaN"
| "nadd a NaN = NaN"
| "nadd PInf NInf = NaN"
| "nadd NInf PInf = NaN"
| "nadd PInf b = PInf"
| "nadd a PInf = PInf"
| "nadd NInf b = NInf"
| "nadd a NInf = NInf"

definition nsub :: "jsnum \<Rightarrow> jsnum \<Rightarrow> jsnum" where
  "nsub a b = nadd a (nneg b)"

fun nmul :: "jsnum \<Rightarrow> jsnum \<Rightarrow> jsnum" where
  "nmul (Fin a) (Fin b) = Fin (a * b)"
| "nmul NaN b = NaN"
| "nmul a NaN = NaN"
| "nmul (Fin a) b = (if a = 0 then NaN else if 0 < a then b else nneg b)"
| "nmul a (Fin b) = (if b = 0 then NaN else if 0 < b then a else nneg a)"
| "nmul PInf b = b"
| "nmul NInf b = nneg b"

fun ndiv :: "jsnum \<Rightarrow> jsnum \<Rightarrow> jsnum" where
  "ndiv (Fin a) (Fin b) =
     (if b = 0 then (if a = 0 then NaN else if 0 < a then PInf else NInf)
      else Fin (a / b))"
| "ndiv NaN b = NaN"
| "ndiv a NaN = NaN"
| "ndiv (Fin a) b = Fin 0"
| "ndiv a (Fin b) = (if 0 \<le> b then a else nneg a)"
| "ndiv a b = NaN"

fun nsqrt :: "jsnum \<Rightarrow> jsnum" where
  "nsqrt (Fin a) = (if a < 0 then NaN else Fin (sqrt a))"
| "nsqrt PInf = PInf"
| "nsqrt a = NaN"

fun nabs :: "jsnum \<Rightarrow> jsnum" where
  "nabs (Fin a) = Fin \<bar>a\<bar>"
| "nabs NaN = NaN"
| "nabs a = PInf"

text \<open>Comparisons: every comparison with \<open>NaN\<close> is false.\<close>

fun nlt :: "jsnum \<Rightarrow> jsnum \<Rightarrow> bool" where
  "nlt (Fin a) (Fin b) = (a < b)"
| "nlt NaN b = False"
| "nlt a NaN = False"
| "nlt NInf b = (b \<noteq> NInf)"
| "nlt a PInf = (a \<noteq> PInf)"
| "nlt a b = False"

fun nle :: "jsnum \<Rightarrow> jsnum \<Rightarrow> bool" where
  "nle (Fin a) (Fin b) = (a \<le> b)"
| "nle NaN b = False"
| "nle a NaN = False"
| "nle NInf b = True"
| "nle a PInf = True"
| "nle a b = False"

section \<open>Types and constants\<close>

datatype GameState = START | PLAYING | WON | LOST | ROUND_OVER

datatype GameMode = CLASSIC | ENDLESS

record point =
  px :: jsnum
  py :: jsnum

record rocket =
  r_start :: point
  r_end :: point
  r_current :: point
  r_speed :: real

record interceptor =
  i_start :: point
  i_target :: point
  i_current :: point
  i_speed :: real
  turretIndex :: nat

record explosion =
  pos :: point
  radius :: real
  maxRadius :: real
  growing :: bool
  alpha :: real

record warning =
  w_x :: jsnum
  life :: real

record turret =
  t_x :: jsnum
  t_y :: jsnum
  ammo :: int
  maxAmmo :: int
  t_active :: bool

record city =
  c_x :: jsnum
  c_y :: jsnum
  c_active :: bool

definition WIN_SCORE :: int where "WIN_SCORE = 1000"
definition ROCKET_SCORE :: int where "ROCKET_SCORE = 20"
definition EXPLOSION_SPEED :: real where "EXPLOSION_SPEED = 1.8"
definition EXPLOSION_MAX_RADIUS :: real where "EXPLOSION_MAX_RADIUS = 75"
definition INTERCEPTOR_SPEED :: real where "INTERCEPTOR_SPEED = 9"
definition ROCKET_BASE_SPEED :: real where "ROCKET_BASE_SPEED = 1.2"

text \<open>
  The state of the component: the React state read by \<^verbatim>\<open>update\<close> (\<open>gameState\<close>,
  \<open>gameMode\<close>, \<open>score\<close>, \<open>highScore\<close>, \<open>roundN\<close> for \<^verbatim>\<open>round\<close>), the refs, and the
  entry \<^verbatim>\<open>soo_nova_high_score\<close> of the local storage. Identifiers, colours, particles,
  floating texts and the camera shake are presentation only and left out.
\<close>

record game =
  gameState :: GameState
  gameMode :: GameMode
  score :: int
  highScore :: int
  roundN :: int
  hasRefilledAt500 :: bool
  lastRefillScore :: int
  rockets :: "rocket list"
  interceptors :: "interceptor list"
  explosions :: "explosion list"
  warnings :: "warning list"
  turrets :: "turret list"
  cities :: "city list"
  nextRocketTime :: real
  stored_high_score :: "int option"

datatype error = TypeError

text \<open>
  What one call of \<^verbatim>\<open>update\<close> takes from outside: the timestamp, the canvas size
  (\<open>None\<close> when \<^verbatim>\<open>canvasRef.current\<close> is null) and the two values \<^verbatim>\<open>Math.random()\<close>
  returns inside \<^verbatim>\<open>spawnRocket\<close>.
\<close>

record inputs =
  time :: real
  canvas :: "(real \<times> real) option"
  rnd_x :: real
  rnd_pick :: real

section \<open>spawnRocket\<close>

definition city_pos :: "city \<Rightarrow> point" where
  "city_pos c = \<lparr>px = c_x c, py = c_y c\<rparr>"

definition turret_pos :: "turret \<Rightarrow> point" where
  "turret_pos t = \<lparr>px = t_x t, py = t_y t\<rparr>"

definition targets :: "game \<Rightarrow> point list" where
  "targets g = map city_pos (filter c_active (cities g)) @ map turret_pos (filter t_active (turrets g))"

text \<open>
  An index outside the array reads \<^verbatim>\<open>undefined\<close>, and \<^verbatim>\<open>target.x\<close> then throws a
  TypeError.
\<close>

definition spawnRocket :: "real \<Rightarrow> real \<Rightarrow> real \<Rightarrow> game \<Rightarrow> error + game" where
  "spawnRocket width rx rp g =
     (let startX = Fin (rx * width);
          tg = targets g
      in if length tg = 0 then Inr g
         else
           (let k = \<lfloor>rp * real (length tg)\<rfloor>
            in if 0 \<le> k \<and> k < int (length tg) then
                 (let target = tg ! nat k
                  in Inr (g\<lparr>warnings := warnings g @ [\<lparr>w_x = startX, life = 1.0\<rparr>],
                            rockets := rockets g @
                              [\<lparr>r_start = \<lparr>px = startX, py = Fin 0\<rparr>,
                                r_end = \<lparr>px = px target, py = py target\<rparr>,
                                r_current = \<lparr>px = startX, py = Fin 0\<rparr>,
                                r_speed = ROCKET_BASE_SPEED + real_of_int (roundN g) * 0.15\<rparr>]\<rparr>))
               else Inl TypeError))"

section \<open>handleCanvasClick\<close>

text \<open>
  The \<^verbatim>\<open>forEach\<close> over the turrets, threading \<^verbatim>\<open>bestTurretIndex\<close> (\<open>None\<close> for -1) and
  \<^verbatim>\<open>minDist\<close>.
\<close>

fun nearest :: "jsnum \<Rightarrow> jsnum \<Rightarrow> turret list \<Rightarrow> nat \<Rightarrow> nat option \<times> jsnum \<Rightarrow> nat option \<times> jsnum" where
  "nearest x y [] index acc = acc"
| "nearest x y (t # ts) index (best, minDist) =
     (if t_active t \<and> 0 < ammo t then
        (let dist = nsqrt (nadd (nmul (nsub (t_x t) x) (nsub (t_x t) x))
                                (nmul (nsub (t_y t) y) (nsub (t_y t) y)))
         in if nlt dist minDist then nearest x y ts (Suc index) (Some index, dist)
            else nearest x y ts (Suc index) (best, minDist))
      else nearest x y ts (Suc index) (best, minDist))"

text \<open>
  The argument is the click point relative to the canvas, \<open>None\<close> when the canvas element
  is absent.
\<close>

definition handleCanvasClick :: "(jsnum \<times> jsnum) option \<Rightarrow> game \<Rightarrow> game" where
  "handleCanvasClick click g =
     (if gameState g \<noteq> PLAYING then g
      else case click of
        None \<Rightarrow> g
      | Some (x, y) \<Rightarrow>
          (case fst (nearest x y (turrets g) 0 (None, PInf)) of
             None \<Rightarrow> g
           | Some b \<Rightarrow>
               (let t = turrets g ! b
                in g\<lparr>turrets := (turrets g)[b := t\<lparr>ammo := ammo t - 1\<rparr>],
                     interceptors := interceptors g @
                       [\<lparr>i_start = \<lparr>px = t_x t, py = t_y t\<rparr>,
                         i_target = \<lparr>px = x, py = y\<rparr>,
                         i_current = \<lparr>px = t_x t, py = t_y t\<rparr>,
                         i_speed = INTERCEPTOR_SPEED,
                         turretIndex = b\<rparr>]\<rparr>)))"

section \<open>update\<close>

subsection \<open>Rockets\<close>

definition rocket_move :: "rocket \<Rightarrow> rocket" where
  "rocket_move r =
     (let dx = nsub (px (r_end r)) (px (r_start r));
          dy = nsub (py (r_end r)) (py (r_start r));
          dist = nsqrt (nadd (nmul dx dx) (nmul dy dy))
      in r\<lparr>r_current :=
             \<lparr>px = nadd (px (r_current r)) (nmul (ndiv dx dist) (Fin (r_speed r))),
              py = nadd (py (r_current r)) (nmul (ndiv dy dist) (Fin (r_speed r)))\<rparr>\<rparr>)"

definition rocket_arrived :: "rocket \<Rightarrow> bool" where
  "rocket_arrived r = nle (py (r_end r)) (py (r_current r))"

definition hit_city :: "jsnum \<Rightarrow> city \<Rightarrow> city" where
  "hit_city cx c =
     (if c_active c \<and> nlt (nabs (nsub (c_x c) cx)) (Fin 25) then c\<lparr>c_active := False\<rparr> else c)"

definition hit_turret :: "jsnum \<Rightarrow> turret \<Rightarrow> turret" where
  "hit_turret cx t =
     (if t_active t \<and> nlt (nabs (nsub (t_x t) cx)) (Fin 25) then t\<lparr>t_active := False\<rparr> else t)"

definition impact_explosion :: "point \<Rightarrow> explosion" where
  "impact_explosion p = \<lparr>pos = p, radius = 2, maxRadius = 55, growing = True, alpha = 1\<rparr>"

text \<open>
  The callback of \<^verbatim>\<open>rocketsRef.current.filter\<close>, in array order; it pushes to the
  explosions and writes to the cities and turrets, which are threaded through.
\<close>

fun rockets_filter ::
  "rocket list \<Rightarrow> explosion list \<times> city list \<times> turret list \<Rightarrow>
   rocket list \<times> explosion list \<times> city list \<times> turret list" where
  "rockets_filter [] (es, cs, ts) = ([], es, cs, ts)"
| "rockets_filter (r # rs) (es, cs, ts) =
     (let r' = rocket_move r
      in if rocket_arrived r' then
           rockets_filter rs
             (es @ [impact_explosion (r_current r')],
              map (hit_city (px (r_current r'))) cs,
              map (hit_turret (px (r_current r'))) ts)
         else
           (case rockets_filter rs (es, cs, ts) of
              (rs', es', cs', ts') \<Rightarrow> (r' # rs', es', cs', ts')))"

definition rockets_phase :: "game \<Rightarrow> game" where
  "rockets_phase g =
     (case rockets_filter (rockets g) (explosions g, cities g, turrets g) of
        (rs, es, cs, ts) \<Rightarrow> g\<lparr>rockets := rs, explosions := es, cities := cs, turrets := ts\<rparr>)"

subsection \<open>Interceptors\<close>

definition inter_move :: "interceptor \<Rightarrow> interceptor" where
  "inter_move i =
     (let dx = nsub (px (i_target i)) (px (i_start i));
          dy = nsub (py (i_target i)) (py (i_start i));
          dist = nsqrt (nadd (nmul dx dx) (nmul dy dy))
      in i\<lparr>i_current :=
             \<lparr>px = nadd (px (i_current i)) (nmul (ndiv dx dist) (Fin (i_speed i))),
              py = nadd (py (i_current i)) (nmul (ndiv dy dist) (Fin (i_speed i)))\<rparr>\<rparr>)"

definition inter_arrived :: "interceptor \<Rightarrow> bool" where
  "inter_arrived i = nle (py (i_current i)) (py (i_target i))"

definition blast :: "point \<Rightarrow> explosion" where
  "blast p = \<lparr>pos = p, radius = 2, maxRadius = EXPLOSION_MAX_RADIUS, growing = True, alpha = 1\<rparr>"

fun inters_filter :: "interceptor list \<Rightarrow> explosion list \<Rightarrow> interceptor list \<times> explosion list" where
  "inters_filter [] es = ([], es)"
| "inters_filter (i # is) es =
     (let i' = inter_move i
      in if inter_arrived i' then inters_filter is (es @ [blast (i_target i')])
         else (case inters_filter is es of (is', es') \<Rightarrow> (i' # is', es')))"

definition interceptors_phase :: "game \<Rightarrow> game" where
  "interceptors_phase g =
     (case inters_filter (interceptors g) (explosions g) of
        (is, es) \<Rightarrow> g\<lparr>interceptors := is, explosions := es\<rparr>)"

subsection \<open>Explosions\<close>

definition explosion_step :: "explosion \<Rightarrow> explosion" where
  "explosion_step e =
     (if growing e then
        (let r = radius e + EXPLOSION_SPEED
         in e\<lparr>radius := r, growing := \<not> (maxRadius e \<le> r)\<rparr>)
      else e\<lparr>radius := radius e - EXPLOSION_SPEED * 0.4, alpha := alpha e - 0.02\<rparr>)"

definition in_blast :: "explosion \<Rightarrow> rocket \<Rightarrow> bool" where
  "in_blast e r =
     (let dx = nsub (px (r_current r)) (px (pos e));
          dy = nsub (py (r_current r)) (py (pos e))
      in nlt (nsqrt (nadd (nmul dx dx) (nmul dy dy))) (Fin (radius e)))"

definition explosion_alive :: "explosion \<Rightarrow> bool" where
  "explosion_alive e = (0 < radius e \<and> 0 < alpha e)"

text \<open>
  The callback of \<^verbatim>\<open>explosionsRef.current.filter\<close>. The explosions it pushes for the
  rockets it destroys go to the very array being filtered: \<^verbatim>\<open>filter\<close> visits only the
  elements present when it was called and returns a fresh array, which then replaces
  \<^verbatim>\<open>explosionsRef.current\<close>, so these pushes leave no trace and are not threaded. The
  third component counts the calls of \<^verbatim>\<open>setScore(s => s + ROCKET_SCORE)\<close>.
\<close>

fun explosions_filter ::
  "explosion list \<Rightarrow> rocket list \<times> nat \<Rightarrow> explosion list \<times> rocket list \<times> nat" where
  "explosions_filter [] (rs, k) = ([], rs, k)"
| "explosions_filter (e # es) (rs, k) =
     (let e' = explosion_step e
      in case explosions_filter es
                (filter (\<lambda>r. \<not> in_blast e' r) rs, k + length (filter (in_blast e') rs)) of
           (es', rs', k') \<Rightarrow> (if explosion_alive e' then e' # es' else es', rs', k'))"

definition warning_step :: "warning \<Rightarrow> warning" where
  "warning_step w = w\<lparr>life := life w - 0.02\<rparr>"

subsection \<open>Progression\<close>

definition refill :: "turret \<Rightarrow> turret" where
  "refill t = (if t_active t then t\<lparr>ammo := maxAmmo t\<rparr> else t)"

definition refill500 :: "game \<Rightarrow> game" where
  "refill500 g =
     (if 500 \<le> score g \<and> \<not> hasRefilledAt500 g
      then g\<lparr>turrets := map refill (turrets g), hasRefilledAt500 := True\<rparr>
      else g)"

definition refill800 :: "game \<Rightarrow> game" where
  "refill800 g =
     (if gameMode g = ENDLESS \<and> 0 < score g \<and> score g mod 800 = 0 \<and> score g \<noteq> lastRefillScore g
      then g\<lparr>turrets := map refill (turrets g), lastRefillScore := score g\<rparr>
      else g)"

definition win_loss :: "game \<Rightarrow> game" where
  "win_loss g =
     (if gameMode g = CLASSIC \<and> WIN_SCORE \<le> score g then g\<lparr>gameState := WON\<rparr>
      else if list_all (\<lambda>t. \<not> t_active t) (turrets g) then
        (if highScore g < score g
         then g\<lparr>highScore := score g, stored_high_score := Some (score g), gameState := LOST\<rparr>
         else g\<lparr>gameState := LOST\<rparr>)
      else g)"

definition round_due :: "game \<Rightarrow> bool" where
  "round_due g =
     (length (rockets g) = 0 \<and> list_all (\<lambda>t. ammo t = 0) (turrets g) \<and> length (interceptors g) = 0)"

definition advance_round :: "game \<Rightarrow> game" where
  "advance_round g =
     (if round_due g then g\<lparr>turrets := map refill (turrets g), roundN := roundN g + 1\<rparr> else g)"

text \<open>
  The React setters take effect after the call: every read of \<^verbatim>\<open>score\<close>, \<^verbatim>\<open>gameState\<close>,
  \<^verbatim>\<open>highScore\<close> and \<^verbatim>\<open>round\<close> inside one \<^verbatim>\<open>update\<close> sees the value the call started with.
  Nothing reads \<open>gameState\<close>, \<open>highScore\<close> or \<open>roundN\<close> after \<open>win_loss\<close> and
  \<open>advance_round\<close> have written them, so these two write the record directly; the score
  is read after the explosions have queued their increments, so the increments are
  counted in \<open>kills\<close> and added last.

  The animation loop takes a new closure of \<^verbatim>\<open>update\<close> whenever \<^verbatim>\<open>gameState\<close>, \<^verbatim>\<open>score\<close>
  or \<^verbatim>\<open>shake\<close> has changed, so each call reads the score and the state the call before
  has left. A new value of \<^verbatim>\<open>round\<close> alone reaches \<^verbatim>\<open>spawnRocket\<close> only with the next such
  renewal; here the spawn reads the round as it stands, and no statement below depends on
  the speed of a rocket or on the time of the next spawn.
\<close>

definition spawn_step :: "inputs \<Rightarrow> real \<Rightarrow> game \<Rightarrow> error + game" where
  "spawn_step inp width g =
     (if nextRocketTime g < time inp then
        (case spawnRocket width (rnd_x inp) (rnd_pick inp) g of
           Inl e \<Rightarrow> Inl e
         | Inr g' \<Rightarrow>
             Inr (g'\<lparr>nextRocketTime := time inp + max 400 (2000 - real_of_int (roundN g) * 150)\<rparr>))
      else Inr g)"

definition explosions_phase :: "game \<Rightarrow> game \<times> nat" where
  "explosions_phase g =
     (case explosions_filter (explosions g) (rockets g, 0) of
        (es, rs, k) \<Rightarrow> (g\<lparr>explosions := es, rockets := rs\<rparr>, k))"

definition warnings_phase :: "game \<Rightarrow> game" where
  "warnings_phase g = g\<lparr>warnings := filter (\<lambda>w. 0 < life w) (map warning_step (warnings g))\<rparr>"

text \<open>The state when the round check of \<^verbatim>\<open>update\<close> is reached, and the queued kills.\<close>

definition before_round_check :: "game \<Rightarrow> game \<times> nat" where
  "before_round_check g =
     (case explosions_phase (interceptors_phase (rockets_phase g)) of
        (g', kills) \<Rightarrow> (win_loss (refill800 (refill500 (warnings_phase g'))), kills))"

definition simulate :: "game \<Rightarrow> game" where
  "simulate g =
     (case before_round_check g of
        (g', kills) \<Rightarrow>
          (let g'' = advance_round g'
           in g''\<lparr>score := score g'' + ROCKET_SCORE * int kills\<rparr>))"

definition update :: "inputs \<Rightarrow> game \<Rightarrow> error + game" where
  "update inp g =
     (if gameState g \<noteq> PLAYING then Inr g
      else case canvas inp of
        None \<Rightarrow> Inr g
      | Some (width, height) \<Rightarrow>
          (case spawn_step inp width g of
             Inl e \<Rightarrow> Inl e
           | Inr g' \<Rightarrow> Inr (simulate g')))"

subsection \<open>A match\<close>

text \<open>
  Between two calls of \<^verbatim>\<open>startGame\<close> the state changes by frames of the animation loop
  and by clicks. An exception in \<^verbatim>\<open>update\<close> leaves the loop without its next frame.
\<close>

datatype event = Tick inputs | Click "(jsnum \<times> jsnum) option"

fun step :: "event \<Rightarrow> game \<Rightarrow> error + game" where
  "step (Tick inp) g = update inp g"
| "step (Click c) g = Inr (handleCanvasClick c g)"

inductive reach :: "game \<Rightarrow> game \<Rightarrow> bool" where
  reach_refl: "reach g g"
| reach_step: "reach g h \<Longrightarrow> step e h = Inr h' \<Longrightarrow> reach g h'"

section \<open>Notions used in the statements\<close>

text \<open>
  The Euclidean distance from the current position of a rocket to its end, computed with
  the operations of the program.
\<close>

definition dist_to_end :: "rocket \<Rightarrow> jsnum" where
  "dist_to_end r =
     (let dx = nsub (px (r_end r)) (px (r_current r));
          dy = nsub (py (r_end r)) (py (r_current r))
      in nsqrt (nadd (nmul dx dx) (nmul dy dy)))"

text \<open>
  The state in which \<^verbatim>\<open>update\<close> reaches its 500-point block: after the filters over
  rockets, interceptors, explosions and the visual lists.
\<close>

definition at_refill500 :: "game \<Rightarrow> game" where
  "at_refill500 g =
     warnings_phase (fst (explosions_phase (interceptors_phase (rockets_phase g))))"


text \<open>
  What a ground impact may change of a turret: nothing but its \<open>t_active\<close> flag, and that
  only from true to false.
\<close>

definition hit_rel :: "turret \<Rightarrow> turret \<Rightarrow> bool" where
  "hit_rel t t' = (t_x t' = t_x t \<and> t_y t' = t_y t \<and> ammo t' = ammo t \<and> maxAmmo t' = maxAmmo t \<and>
                   (t_active t' \<longrightarrow> t_active t))"

text \<open>
  The invariant of the explosions: the radius is positive, below \<open>maxRadius\<close> while
  growing, and never more than one growth step above it.
\<close>

definition explosion_ok :: "explosion \<Rightarrow> bool" where
  "explosion_ok e =
     (0 < radius e \<and> radius e < maxRadius e + EXPLOSION_SPEED \<and> (growing e \<longrightarrow> radius e < maxRadius e))"

text \<open>Every active turret has all its ammo; some destroyed turret still holds ammo.\<close>

definition all_full :: "turret list \<Rightarrow> bool" where
  "all_full ts = (\<forall>t \<in> set ts. t_active t \<longrightarrow> ammo t = maxAmmo t)"

definition wreck_with_ammo :: "turret list \<Rightarrow> bool" where
  "wreck_with_ammo ts = (\<exists>t \<in> set ts. \<not> t_active t \<and> 0 < ammo t)"

section \<open>Sample states\<close>

text \<open>
  A match on a canvas of 800 by 600 as \<^verbatim>\<open>initLayout\<close> lays it out, and a frame at
  time 0, when no rocket is due.
\<close>

definition sample_turrets :: "turret list" where
  "sample_turrets =
     [\<lparr>t_x = Fin 60, t_y = Fin 560, ammo = 20, maxAmmo = 20, t_active = True\<rparr>,
      \<lparr>t_x = Fin 400, t_y = Fin 560, ammo = 40, maxAmmo = 40, t_active = True\<rparr>,
      \<lparr>t_x = Fin 740, t_y = Fin 560, ammo = 20, maxAmmo = 20, t_active = True\<rparr>]"

definition sample_cities :: "city list" where
  "sample_cities =
     [\<lparr>c_x = Fin 144, c_y = Fin 560, c_active = True\<rparr>,
      \<lparr>c_x = Fin 224, c_y = Fin 560, c_active = True\<rparr>,
      \<lparr>c_x = Fin 304, c_y = Fin 560, c_active = True\<rparr>,
      \<lparr>c_x = Fin 496, c_y = Fin 560, c_active = True\<rparr>,
      \<lparr>c_x = Fin 576, c_y = Fin 560, c_active = True\<rparr>,
      \<lparr>c_x = Fin 656, c_y = Fin 560, c_active = True\<rparr>]"

definition sample_game :: game where
  "sample_game =
     \<lparr>gameState = PLAYING, gameMode = CLASSIC, score = 0, highScore = 0, roundN = 1,
      hasRefilledAt500 = False, lastRefillScore = 0, rockets = [], interceptors = [],
      explosions = [], warnings = [], turrets = sample_turrets, cities = sample_cities,
      nextRocketTime = 0, stored_high_score = None\<rparr>"

definition tick0 :: inputs where
  "tick0 = \<lparr>time = 0, canvas = Some (800, 600), rnd_x = 0, rnd_pick = 0\<rparr>"

text \<open>
  Rockets: one step above the left turret; just spawned above it; and one whose end lies
  above its start.
\<close>

definition falling :: rocket where
  "falling =
     \<lparr>r_start = \<lparr>px = Fin 60, py = Fin 0\<rparr>, r_end = \<lparr>px = Fin 60, py = Fin 560\<rparr>,
      r_current = \<lparr>px = Fin 60, py = Fin 559\<rparr>, r_speed = 1.35\<rparr>"

definition launched :: rocket where
  "launched =
     \<lparr>r_start = \<lparr>px = Fin 60, py = Fin 0\<rparr>, r_end = \<lparr>px = Fin 60, py = Fin 560\<rparr>,
      r_current = \<lparr>px = Fin 60, py = Fin 0\<rparr>, r_speed = 1.35\<rparr>"

definition rising :: rocket where
  "rising =
     \<lparr>r_start = \<lparr>px = Fin 60, py = Fin 0\<rparr>, r_end = \<lparr>px = Fin 60, py = Fin (- 1)\<rparr>,
      r_current = \<lparr>px = Fin 60, py = Fin 0\<rparr>, r_speed = 3\<rparr>"

text \<open>
  The last turret standing is about to be destroyed, in classic mode with 1000 points and
  in endless mode with 700 points against a high score of 650; and the states after the
  tick.
\<close>

definition last_standing :: "turret list" where
  "last_standing =
     [\<lparr>t_x = Fin 60, t_y = Fin 560, ammo = 20, maxAmmo = 20, t_active = True\<rparr>,
      \<lparr>t_x = Fin 400, t_y = Fin 560, ammo = 12, maxAmmo = 40, t_active = False\<rparr>,
      \<lparr>t_x = Fin 740, t_y = Fin 560, ammo = 0, maxAmmo = 20, t_active = False\<rparr>]"

definition all_down :: "turret list" where
  "all_down =
     [\<lparr>t_x = Fin 60, t_y = Fin 560, ammo = 20, maxAmmo = 20, t_active = False\<rparr>,
      \<lparr>t_x = Fin 400, t_y = Fin 560, ammo = 12, maxAmmo = 40, t_active = False\<rparr>,
      \<lparr>t_x = Fin 740, t_y = Fin 560, ammo = 0, maxAmmo = 20, t_active = False\<rparr>]"

definition classic_1000 :: game where
  "classic_1000 = sample_game\<lparr>score := 1000, hasRefilledAt500 := True, rockets := [falling], turrets := last_standing\<rparr>"

definition classic_1000_after :: game where
  "classic_1000_after =
     classic_1000\<lparr>gameState := WON, rockets := [],
       explosions := [\<lparr>pos = \<lparr>px = Fin 60, py = Fin 560.35\<rparr>, radius = 3.8, maxRadius = 55,
                       growing = True, alpha = 1\<rparr>],
       turrets := all_down\<rparr>"

definition endless_700 :: game where
  "endless_700 = sample_game\<lparr>gameMode := ENDLESS, score := 700, highScore := 650,
     hasRefilledAt500 := True, rockets := [falling], turrets := last_standing\<rparr>"

definition endless_700_after :: game where
  "endless_700_after =
     endless_700\<lparr>gameState := LOST, highScore := 700, stored_high_score := Some 700, rockets := [],
       explosions := [\<lparr>pos = \<lparr>px = Fin 60, py = Fin 560.35\<rparr>, radius = 3.8, maxRadius = 55,
                       growing = True, alpha = 1\<rparr>],
       turrets := all_down\<rparr>"

text \<open>
  Turrets with part of their ammo used, with none left, and with a destroyed turret that
  still holds ammo; matches with them at 600 points in classic mode, at 800 points in
  endless mode, and at the start.
\<close>

definition used_turrets :: "turret list" where
  "used_turrets =
     [\<lparr>t_x = Fin 60, t_y = Fin 560, ammo = 5, maxAmmo = 20, t_active = True\<rparr>,
      \<lparr>t_x = Fin 400, t_y = Fin 560, ammo = 0, maxAmmo = 40, t_active = True\<rparr>,
      \<lparr>t_x = Fin 740, t_y = Fin 560, ammo = 20, maxAmmo = 20, t_active = True\<rparr>]"


definition wreck_turrets :: "turret list" where
  "wreck_turrets =
     [\<lparr>t_x = Fin 60, t_y = Fin 560, ammo = 3, maxAmmo = 20, t_active = False\<rparr>,
      \<lparr>t_x = Fin 400, t_y = Fin 560, ammo = 0, maxAmmo = 40, t_active = True\<rparr>,
      \<lparr>t_x = Fin 740, t_y = Fin 560, ammo = 0, maxAmmo = 20, t_active = True\<rparr>]"



definition endless_800 :: game where
  "endless_800 = sample_game\<lparr>gameMode := ENDLESS, score := 800, hasRefilledAt500 := True,
                              turrets := used_turrets\<rparr>"

definition endless_800_after :: game where
  "endless_800_after = endless_800\<lparr>lastRefillScore := 800, turrets := sample_turrets\<rparr>"



definition wreck_game :: game where
  "wreck_game = sample_game\<lparr>turrets := wreck_turrets\<rparr>"

text \<open>
  Endless mode at 780 points: two rockets on their way down, 48 to the left and to the
  right of a blast that has grown to radius 47; and the states after one and two ticks.
\<close>

definition blast_47 :: explosion where
  "blast_47 = \<lparr>pos = \<lparr>px = Fin 448, py = Fin 299.7\<rparr>, radius = 47, maxRadius = EXPLOSION_MAX_RADIUS,
               growing = True, alpha = 1\<rparr>"

definition left_rocket :: rocket where
  "left_rocket =
     \<lparr>r_start = \<lparr>px = Fin 400, py = Fin 0\<rparr>, r_end = \<lparr>px = Fin 400, py = Fin 560\<rparr>,
      r_current = \<lparr>px = Fin 400, py = Fin 298.35\<rparr>, r_speed = 1.35\<rparr>"

definition right_rocket :: rocket where
  "right_rocket =
     \<lparr>r_start = \<lparr>px = Fin 496, py = Fin 0\<rparr>, r_end = \<lparr>px = Fin 496, py = Fin 560\<rparr>,
      r_current = \<lparr>px = Fin 496, py = Fin 298.35\<rparr>, r_speed = 1.35\<rparr>"

definition endless_780 :: game where
  "endless_780 = sample_game\<lparr>gameMode := ENDLESS, score := 780, hasRefilledAt500 := True,
     turrets := used_turrets, rockets := [left_rocket, right_rocket], explosions := [blast_47]\<rparr>"

definition endless_820 :: game where
  "endless_820 = endless_780\<lparr>score := 820, rockets := [],
     explosions := [blast_47\<lparr>radius := 48.8\<rparr>]\<rparr>"

definition endless_820_next :: game where
  "endless_820_next = endless_820\<lparr>explosions := [blast_47\<lparr>radius := 50.6\<rparr>]\<rparr>"





text \<open>
  The interceptor a click on the left turret launches, and what the kinematics step makes
  of it.
\<close>

definition stuck :: interceptor where
  "stuck = \<lparr>i_start = \<lparr>px = Fin 60, py = Fin 560\<rparr>, i_target = \<lparr>px = Fin 60, py = Fin 560\<rparr>,
            i_current = \<lparr>px = Fin 60, py = Fin 560\<rparr>, i_speed = INTERCEPTOR_SPEED,
            turretIndex = 0\<rparr>"

definition stuck_nan :: interceptor where
  "stuck_nan = stuck\<lparr>i_current := \<lparr>px = NaN, py = NaN\<rparr>\<rparr>"

text \<open>
  A rocket whose start is its end, as \<^verbatim>\<open>spawnRocket\<close> creates it on a canvas of height
  40 (where the ground is at y = 0) when the random x falls on the target.
\<close>

definition grounded :: rocket where
  "grounded =
     \<lparr>r_start = \<lparr>px = Fin 60, py = Fin 0\<rparr>, r_end = \<lparr>px = Fin 60, py = Fin 0\<rparr>,
      r_current = \<lparr>px = Fin 60, py = Fin 0\<rparr>, r_speed = 1.35\<rparr>"

definition grounded_nan :: rocket where
  "grounded_nan = grounded\<lparr>r_current := \<lparr>px = NaN, py = NaN\<rparr>\<rparr>"

section \<open>Lists under the three filters\<close>

text \<open>The callbacks seen from the lists they thread: which turrets and explosions come out.\<close>

lemma hit_rel_refl: "hit_rel t t"
  by (simp add: hit_rel_def)

lemma hit_rel_trans: "hit_rel a b \<Longrightarrow> hit_rel b c \<Longrightarrow> hit_rel a c"
  by (simp add: hit_rel_def)

lemma hit_rel_hit: "list_all2 hit_rel ts (map (hit_turret cx) ts)"
  by (simp add: list_all2_conv_all_nth hit_rel_def hit_turret_def)

lemma rockets_filter_turrets:
  "rockets_filter rs (es, cs, ts) = (rs', es', cs', ts') \<Longrightarrow> list_all2 hit_rel ts ts'"
proof (induction rs arbitrary: es cs ts rs')
  case Nil
  then show ?case by (simp add: list_all2_conv_all_nth hit_rel_refl)
next
  case (Cons r rs)
  show ?case
  proof (cases "rocket_arrived (rocket_move r)")
    case True
    with Cons.prems have "rockets_filter rs
        (es @ [impact_explosion (r_current (rocket_move r))],
         map (hit_city (px (r_current (rocket_move r)))) cs,
         map (hit_turret (px (r_current (rocket_move r)))) ts) = (rs', es', cs', ts')"
      by (simp add: Let_def)
    then have "list_all2 hit_rel (map (hit_turret (px (r_current (rocket_move r)))) ts) ts'"
      by (rule Cons.IH)
    with hit_rel_hit show ?thesis
      by (rule list_all2_trans [rotated]) (rule hit_rel_trans)
  next
    case False
    with Cons.prems obtain rs'' where "rockets_filter rs (es, cs, ts) = (rs'', es', cs', ts')"
      by (auto simp add: Let_def split: prod.splits)
    then show ?thesis by (rule Cons.IH)
  qed
qed

lemma rockets_filter_explosions:
  "rockets_filter rs (es, cs, ts) = (rs', es', cs', ts') \<Longrightarrow>
   \<forall>e \<in> set es'. e \<in> set es \<or> (\<exists>p. e = impact_explosion p)"
proof (induction rs arbitrary: es cs ts rs')
  case Nil
  then show ?case by simp
next
  case (Cons r rs)
  show ?case
  proof (cases "rocket_arrived (rocket_move r)")
    case True
    with Cons.prems have "rockets_filter rs
        (es @ [impact_explosion (r_current (rocket_move r))],
         map (hit_city (px (r_current (rocket_move r)))) cs,
         map (hit_turret (px (r_current (rocket_move r)))) ts) = (rs', es', cs', ts')"
      by (simp add: Let_def)
    from Cons.IH [OF this] show ?thesis by auto
  next
    case False
    with Cons.prems obtain rs'' where "rockets_filter rs (es, cs, ts) = (rs'', es', cs', ts')"
      by (auto simp add: Let_def split: prod.splits)
    then show ?thesis by (rule Cons.IH)
  qed
qed

lemma inters_filter_explosions:
  "inters_filter is es = (is', es') \<Longrightarrow>
   \<forall>e \<in> set es'. e \<in> set es \<or> (\<exists>p. e = blast p)"
proof (induction "is" arbitrary: es is')
  case Nil
  then show ?case by simp
next
  case (Cons i "is")
  show ?case
  proof (cases "inter_arrived (inter_move i)")
    case True
    with Cons.prems have "inters_filter is (es @ [blast (i_target (inter_move i))]) = (is', es')"
      by (simp add: Let_def)
    from Cons.IH [OF this] show ?thesis by auto
  next
    case False
    with Cons.prems obtain is'' where "inters_filter is es = (is'', es')"
      by (auto simp add: Let_def split: prod.splits)
    then show ?thesis by (rule Cons.IH)
  qed
qed

lemma explosions_filter_explosions:
  "explosions_filter es (rs, k) = (es', rs', k') \<Longrightarrow>
   \<forall>e' \<in> set es'. \<exists>e \<in> set es. e' = explosion_step e \<and> explosion_alive e'"
proof (induction es arbitrary: rs k es')
  case Nil
  then show ?case by simp
next
  case (Cons e es)
  from Cons.prems obtain es'' where
    rec: "explosions_filter es (filter (\<lambda>r. \<not> in_blast (explosion_step e) r) rs,
             k + length (filter (in_blast (explosion_step e)) rs)) = (es'', rs', k')"
    and es': "es' = (if explosion_alive (explosion_step e) then explosion_step e # es'' else es'')"
    by (auto simp add: Let_def split: prod.splits)
  from Cons.IH [OF rec] show ?case unfolding es' by auto
qed

lemma hit_turret_fields:
  "t_x (hit_turret cx t) = t_x t \<and> t_y (hit_turret cx t) = t_y t \<and>
   ammo (hit_turret cx t) = ammo t \<and> maxAmmo (hit_turret cx t) = maxAmmo t"
  by (simp add: hit_turret_def)

lemma hit_city_fields:
  "c_x (hit_city cx c) = c_x c \<and> c_y (hit_city cx c) = c_y c"
  by (simp add: hit_city_def)

section \<open>What each part of a tick leaves alone\<close>

lemma rockets_phase_frame:
  "gameState (rockets_phase g) = gameState g"
  "gameMode (rockets_phase g) = gameMode g"
  "score (rockets_phase g) = score g"
  "highScore (rockets_phase g) = highScore g"
  "roundN (rockets_phase g) = roundN g"
  "hasRefilledAt500 (rockets_phase g) = hasRefilledAt500 g"
  "lastRefillScore (rockets_phase g) = lastRefillScore g"
  "interceptors (rockets_phase g) = interceptors g"
  "stored_high_score (rockets_phase g) = stored_high_score g"
  by (simp_all add: rockets_phase_def split: prod.splits)

lemma rockets_phase_turrets: "list_all2 hit_rel (turrets g) (turrets (rockets_phase g))"
proof -
  obtain rs es cs ts where
    eq: "rockets_filter (rockets g) (explosions g, cities g, turrets g) = (rs, es, cs, ts)"
    by (metis prod_cases4)
  then have "turrets (rockets_phase g) = ts" by (simp add: rockets_phase_def)
  with rockets_filter_turrets [OF eq] show ?thesis by simp
qed

lemma rockets_phase_explosions:
  "\<forall>e \<in> set (explosions (rockets_phase g)). e \<in> set (explosions g) \<or> (\<exists>p. e = impact_explosion p)"
proof -
  obtain rs es cs ts where
    eq: "rockets_filter (rockets g) (explosions g, cities g, turrets g) = (rs, es, cs, ts)"
    by (metis prod_cases4)
  then have "explosions (rockets_phase g) = es" by (simp add: rockets_phase_def)
  with rockets_filter_explosions [OF eq] show ?thesis by simp
qed

lemma interceptors_phase_frame:
  "gameState (interceptors_phase g) = gameState g"
  "gameMode (interceptors_phase g) = gameMode g"
  "score (interceptors_phase g) = score g"
  "highScore (interceptors_phase g) = highScore g"
  "roundN (interceptors_phase g) = roundN g"
  "hasRefilledAt500 (interceptors_phase g) = hasRefilledAt500 g"
  "lastRefillScore (interceptors_phase g) = lastRefillScore g"
  "rockets (interceptors_phase g) = rockets g"
  "turrets (interceptors_phase g) = turrets g"
  "cities (interceptors_phase g) = cities g"
  "stored_high_score (interceptors_phase g) = stored_high_score g"
  by (simp_all add: interceptors_phase_def split: prod.splits)

lemma interceptors_phase_explosions:
  "\<forall>e \<in> set (explosions (interceptors_phase g)). e \<in> set (explosions g) \<or> (\<exists>p. e = blast p)"
proof -
  obtain ins es where eq: "inters_filter (interceptors g) (explosions g) = (ins, es)"
    by (metis surj_pair)
  then have "explosions (interceptors_phase g) = es" by (simp add: interceptors_phase_def)
  with inters_filter_explosions [OF eq] show ?thesis by simp
qed

lemma explosions_phase_frame:
  "gameState (fst (explosions_phase g)) = gameState g"
  "gameMode (fst (explosions_phase g)) = gameMode g"
  "score (fst (explosions_phase g)) = score g"
  "highScore (fst (explosions_phase g)) = highScore g"
  "roundN (fst (explosions_phase g)) = roundN g"
  "hasRefilledAt500 (fst (explosions_phase g)) = hasRefilledAt500 g"
  "lastRefillScore (fst (explosions_phase g)) = lastRefillScore g"
  "interceptors (fst (explosions_phase g)) = interceptors g"
  "turrets (fst (explosions_phase g)) = turrets g"
  "cities (fst (explosions_phase g)) = cities g"
  "stored_high_score (fst (explosions_phase g)) = stored_high_score g"
  by (simp_all add: explosions_phase_def split: prod.splits)

lemma explosions_phase_explosions:
  "\<forall>e' \<in> set (explosions (fst (explosions_phase g))).
     \<exists>e \<in> set (explosions g). e' = explosion_step e \<and> explosion_alive e'"
proof -
  obtain es rs k where eq: "explosions_filter (explosions g) (rockets g, 0) = (es, rs, k)"
    by (metis prod_cases3)
  then have "explosions (fst (explosions_phase g)) = es" by (simp add: explosions_phase_def)
  with explosions_filter_explosions [OF eq] show ?thesis by simp
qed

text \<open>The state after the three filters over rockets, interceptors and explosions.\<close>

lemma kin_frame:
  "gameState (fst (explosions_phase (interceptors_phase (rockets_phase g)))) = gameState g"
  "gameMode (fst (explosions_phase (interceptors_phase (rockets_phase g)))) = gameMode g"
  "score (fst (explosions_phase (interceptors_phase (rockets_phase g)))) = score g"
  "highScore (fst (explosions_phase (interceptors_phase (rockets_phase g)))) = highScore g"
  "roundN (fst (explosions_phase (interceptors_phase (rockets_phase g)))) = roundN g"
  "hasRefilledAt500 (fst (explosions_phase (interceptors_phase (rockets_phase g)))) = hasRefilledAt500 g"
  "lastRefillScore (fst (explosions_phase (interceptors_phase (rockets_phase g)))) = lastRefillScore g"
  "stored_high_score (fst (explosions_phase (interceptors_phase (rockets_phase g)))) = stored_high_score g"
  "turrets (fst (explosions_phase (interceptors_phase (rockets_phase g)))) = turrets (rockets_phase g)"
  by (simp_all add: explosions_phase_frame interceptors_phase_frame rockets_phase_frame)

lemma progress_frame:
  "turrets (warnings_phase g) = turrets g"
  "score (warnings_phase g) = score g"
  "gameMode (warnings_phase g) = gameMode g"
  "gameState (warnings_phase g) = gameState g"
  "highScore (warnings_phase g) = highScore g"
  "roundN (warnings_phase g) = roundN g"
  "hasRefilledAt500 (warnings_phase g) = hasRefilledAt500 g"
  "lastRefillScore (warnings_phase g) = lastRefillScore g"
  "stored_high_score (warnings_phase g) = stored_high_score g"
  "rockets (warnings_phase g) = rockets g"
  "interceptors (warnings_phase g) = interceptors g"
  "explosions (warnings_phase g) = explosions g"
  "score (refill500 g) = score g"
  "gameMode (refill500 g) = gameMode g"
  "gameState (refill500 g) = gameState g"
  "highScore (refill500 g) = highScore g"
  "roundN (refill500 g) = roundN g"
  "lastRefillScore (refill500 g) = lastRefillScore g"
  "stored_high_score (refill500 g) = stored_high_score g"
  "rockets (refill500 g) = rockets g"
  "interceptors (refill500 g) = interceptors g"
  "explosions (refill500 g) = explosions g"
  "score (refill800 g) = score g"
  "gameMode (refill800 g) = gameMode g"
  "gameState (refill800 g) = gameState g"
  "highScore (refill800 g) = highScore g"
  "roundN (refill800 g) = roundN g"
  "hasRefilledAt500 (refill800 g) = hasRefilledAt500 g"
  "stored_high_score (refill800 g) = stored_high_score g"
  "rockets (refill800 g) = rockets g"
  "interceptors (refill800 g) = interceptors g"
  "explosions (refill800 g) = explosions g"
  "score (win_loss g) = score g"
  "gameMode (win_loss g) = gameMode g"
  "roundN (win_loss g) = roundN g"
  "hasRefilledAt500 (win_loss g) = hasRefilledAt500 g"
  "lastRefillScore (win_loss g) = lastRefillScore g"
  "turrets (win_loss g) = turrets g"
  "rockets (win_loss g) = rockets g"
  "interceptors (win_loss g) = interceptors g"
  "explosions (win_loss g) = explosions g"
  "score (advance_round g) = score g"
  "gameMode (advance_round g) = gameMode g"
  "gameState (advance_round g) = gameState g"
  "highScore (advance_round g) = highScore g"
  "hasRefilledAt500 (advance_round g) = hasRefilledAt500 g"
  "lastRefillScore (advance_round g) = lastRefillScore g"
  "stored_high_score (advance_round g) = stored_high_score g"
  "rockets (advance_round g) = rockets g"
  "interceptors (advance_round g) = interceptors g"
  "explosions (advance_round g) = explosions g"
  by (simp_all add: warnings_phase_def refill500_def refill800_def win_loss_def advance_round_def)

lemma refill_active: "t_active (refill t) = t_active t"
  by (simp add: refill_def)

lemma map_refill_active: "map t_active (map refill ts) = map t_active ts"
  by (simp add: refill_active)

lemma refill_turrets_active:
  "map t_active (turrets (refill500 g)) = map t_active (turrets g)"
  "map t_active (turrets (refill800 g)) = map t_active (turrets g)"
  "map t_active (turrets (advance_round g)) = map t_active (turrets g)"
  by (simp_all add: refill500_def refill800_def advance_round_def refill_active)

lemma update_playing:
  assumes "gameState g = PLAYING" "canvas inp = Some (w, h)" "update inp g = Inr g'"
  shows "\<exists>g1. spawn_step inp w g = Inr g1 \<and> g' = simulate g1"
  using assms by (auto simp add: update_def split: sum.splits)

lemma update_cases:
  assumes "update inp g = Inr g'"
  shows "g' = g \<or> (gameState g = PLAYING \<and> (\<exists>w h g1. canvas inp = Some (w, h) \<and>
            spawn_step inp w g = Inr g1 \<and> g' = simulate g1))"
  using assms by (auto simp add: update_def split: if_splits option.splits sum.splits)

lemma spawn_step_frame:
  assumes "spawn_step inp w g = Inr g1"
  shows "gameState g1 = gameState g" "gameMode g1 = gameMode g" "score g1 = score g"
    "highScore g1 = highScore g" "roundN g1 = roundN g"
    "hasRefilledAt500 g1 = hasRefilledAt500 g" "lastRefillScore g1 = lastRefillScore g"
    "interceptors g1 = interceptors g" "explosions g1 = explosions g"
    "turrets g1 = turrets g" "cities g1 = cities g" "stored_high_score g1 = stored_high_score g"
  using assms
  by (auto simp add: spawn_step_def spawnRocket_def Let_def split: if_splits sum.splits)

lemma simulate_unfold:
  "simulate g = (advance_round (fst (before_round_check g)))
       \<lparr>score := score g + ROCKET_SCORE * int (snd (before_round_check g))\<rparr>"
proof (cases "explosions_phase (interceptors_phase (rockets_phase g))")
  case (Pair x1 x2)
  with kin_frame(3) [of g] have "score x1 = score g" by simp
  with Pair show ?thesis
    by (simp add: simulate_def Let_def progress_frame before_round_check_def)
qed

lemma brc_unfold:
  "fst (before_round_check g) =
     win_loss (refill800 (refill500 (warnings_phase
       (fst (explosions_phase (interceptors_phase (rockets_phase g)))))))"
  by (simp add: before_round_check_def split: prod.splits)

lemma click_frame:
  "gameState (handleCanvasClick c g) = gameState g"
  "gameMode (handleCanvasClick c g) = gameMode g"
  "score (handleCanvasClick c g) = score g"
  "highScore (handleCanvasClick c g) = highScore g"
  "roundN (handleCanvasClick c g) = roundN g"
  "hasRefilledAt500 (handleCanvasClick c g) = hasRefilledAt500 g"
  "lastRefillScore (handleCanvasClick c g) = lastRefillScore g"
  "rockets (handleCanvasClick c g) = rockets g"
  "explosions (handleCanvasClick c g) = explosions g"
  "cities (handleCanvasClick c g) = cities g"
  by (simp_all add: handleCanvasClick_def Let_def split: option.splits prod.splits)

lemma simulate_round:
  "roundN (simulate g) = (if round_due (fst (before_round_check g)) then roundN g + 1 else roundN g)"
  "turrets (simulate g) = (if round_due (fst (before_round_check g))
      then map refill (turrets (fst (before_round_check g))) else turrets (fst (before_round_check g)))"
  "rockets (simulate g) = rockets (fst (before_round_check g))"
  "interceptors (simulate g) = interceptors (fst (before_round_check g))"
  by (simp_all add: simulate_unfold advance_round_def brc_unfold progress_frame kin_frame)

lemma simulate_turrets:
  "turrets (simulate g) =
     turrets (advance_round (win_loss (refill800 (refill500 (warnings_phase
       (fst (explosions_phase (interceptors_phase (rockets_phase g)))))))))"
  by (simp add: simulate_unfold brc_unfold)


lemma simulate_last:
  "lastRefillScore (simulate g) =
     (if gameMode g = ENDLESS \<and> 0 < score g \<and> score g mod 800 = 0 \<and> score g \<noteq> lastRefillScore g
      then score g else lastRefillScore g)"
  by (simp add: simulate_unfold brc_unfold progress_frame kin_frame refill800_def)

lemma simulate_score: "score g \<le> score (simulate g)"
  by (simp add: simulate_unfold ROCKET_SCORE_def)

lemma simulate_explosions:
  "explosions (simulate g) = explosions (fst (explosions_phase (interceptors_phase (rockets_phase g))))"
  by (simp add: simulate_unfold brc_unfold progress_frame)

lemma simulate_outcome:
  "gameState (simulate g) = gameState (fst (before_round_check g))"
  "highScore (simulate g) = highScore (fst (before_round_check g))"
  "stored_high_score (simulate g) = stored_high_score (fst (before_round_check g))"
  by (simp_all add: simulate_unfold progress_frame)

section \<open>Ticks of the sample states\<close>

lemma sqrt560: "sqrt 313600 = 560"
proof -
  have "sqrt (560 * 560) = \<bar>560::real\<bar>" by (rule real_sqrt_abs2)
  then show ?thesis by simp
qed

lemma falling_move:
  "rocket_move falling = falling\<lparr>r_current := \<lparr>px = Fin 60, py = Fin 560.35\<rparr>\<rparr>"
  by (simp add: rocket_move_def falling_def nsub_def Let_def sqrt560)

lemma falling_arrived: "rocket_arrived (rocket_move falling)"
  by (simp add: falling_move rocket_arrived_def) (simp add: falling_def)

lemma falling_filter:
  "rockets_filter [falling] ([], sample_cities, sample_turrets) =
     ([], [impact_explosion \<lparr>px = Fin 60, py = Fin 560.35\<rparr>], sample_cities,
      [\<lparr>t_x = Fin 60, t_y = Fin 560, ammo = 20, maxAmmo = 20, t_active = False\<rparr>,
       \<lparr>t_x = Fin 400, t_y = Fin 560, ammo = 40, maxAmmo = 40, t_active = True\<rparr>,
       \<lparr>t_x = Fin 740, t_y = Fin 560, ammo = 20, maxAmmo = 20, t_active = True\<rparr>])"
  by (simp add: falling_arrived Let_def)
     (simp add: falling_move sample_cities_def sample_turrets_def hit_city_def hit_turret_def nsub_def)

lemma falling_filter_one:
  "rockets_filter [falling] ([], sample_cities, last_standing) =
     ([], [impact_explosion \<lparr>px = Fin 60, py = Fin 560.35\<rparr>], sample_cities,
      all_down)"
  by (simp add: falling_arrived Let_def)
     (simp add: falling_move sample_cities_def last_standing_def all_down_def hit_city_def hit_turret_def nsub_def)

lemmas tick_defs = update_def tick0_def sample_game_def
      spawn_step_def simulate_def before_round_check_def rockets_phase_def
      interceptors_phase_def explosions_phase_def warnings_phase_def refill500_def refill800_def
      win_loss_def WIN_SCORE_def advance_round_def round_due_def refill_def Let_def
      sample_turrets_def


lemma classic_1000_tick: "update tick0 classic_1000 = Inr classic_1000_after"
  by (simp add: update_def tick0_def classic_1000_def classic_1000_after_def sample_game_def
      spawn_step_def simulate_def before_round_check_def rockets_phase_def falling_filter_one
      interceptors_phase_def explosions_phase_def impact_explosion_def explosion_step_def
      explosion_alive_def EXPLOSION_SPEED_def warnings_phase_def refill500_def refill800_def
      win_loss_def WIN_SCORE_def advance_round_def round_due_def refill_def Let_def all_down_def
      del: rockets_filter.simps)

lemma endless_700_tick: "update tick0 endless_700 = Inr endless_700_after"
  by (simp add: update_def tick0_def endless_700_def endless_700_after_def sample_game_def
      spawn_step_def simulate_def before_round_check_def rockets_phase_def falling_filter_one
      interceptors_phase_def explosions_phase_def impact_explosion_def explosion_step_def
      explosion_alive_def EXPLOSION_SPEED_def warnings_phase_def refill500_def refill800_def
      win_loss_def WIN_SCORE_def advance_round_def round_due_def refill_def Let_def all_down_def
      del: rockets_filter.simps)


lemma endless_800_tick: "update tick0 endless_800 = Inr endless_800_after"
  by (simp add: tick_defs endless_800_def endless_800_after_def used_turrets_def)


lemma wreck_game_tick: "update tick0 wreck_game = Inr wreck_game"
  by (simp add: tick_defs wreck_game_def wreck_turrets_def)


lemma launched_move:
  "(rocket_move ^^ Suc 0) launched = launched\<lparr>r_current := \<lparr>px = Fin 60, py = Fin 1.35\<rparr>\<rparr>"
  by (simp add: rocket_move_def launched_def nsub_def Let_def sqrt560)

lemma nearest_stuck:
  "nearest (Fin 60) (Fin 560) sample_turrets 0 (None, PInf) = (Some 0, Fin 0)"
  by (simp add: sample_turrets_def nsub_def Let_def)

section \<open>Ground impact\<close>

text \<open>
  C10: when a rocket arrives, the turrets and cities keep their number and order; every
  turret keeps its x, y, ammo and maxAmmo and every city its x and y, so only the active
  flag can change; and a turret or city whose x is not within 25 of the impact x is left
  exactly as it was.
\<close>

theorem impact_frame:
  assumes "rocket_arrived (rocket_move r)"
    and "rockets_filter [r] (es, cs, ts) = (rs', es', cs', ts')"
  shows "length ts' = length ts \<and> length cs' = length cs \<and>
    (\<forall>i < length ts.
       t_x (ts' ! i) = t_x (ts ! i) \<and> t_y (ts' ! i) = t_y (ts ! i) \<and>
       ammo (ts' ! i) = ammo (ts ! i) \<and> maxAmmo (ts' ! i) = maxAmmo (ts ! i) \<and>
       (\<not> nlt (nabs (nsub (t_x (ts ! i)) (px (r_current (rocket_move r))))) (Fin 25)
          \<longrightarrow> ts' ! i = ts ! i)) \<and>
    (\<forall>i < length cs.
       c_x (cs' ! i) = c_x (cs ! i) \<and> c_y (cs' ! i) = c_y (cs ! i) \<and>
       (\<not> nlt (nabs (nsub (c_x (cs ! i)) (px (r_current (rocket_move r))))) (Fin 25)
          \<longrightarrow> cs' ! i = cs ! i))"
proof -
  from assms have ts': "ts' = map (hit_turret (px (r_current (rocket_move r)))) ts"
    and cs': "cs' = map (hit_city (px (r_current (rocket_move r)))) cs"
    by (simp_all add: Let_def)
  show ?thesis
    unfolding ts' cs'
    by (simp add: hit_turret_fields hit_city_fields) (simp add: hit_turret_def hit_city_def)
qed

theorem impact_frame_witness:
  "rocket_arrived (rocket_move falling) \<and>
   rockets_filter [falling] ([], sample_cities, sample_turrets) =
     ([], [impact_explosion \<lparr>px = Fin 60, py = Fin 560.35\<rparr>], sample_cities,
      [\<lparr>t_x = Fin 60, t_y = Fin 560, ammo = 20, maxAmmo = 20, t_active = False\<rparr>,
       \<lparr>t_x = Fin 400, t_y = Fin 560, ammo = 40, maxAmmo = 40, t_active = True\<rparr>,
       \<lparr>t_x = Fin 740, t_y = Fin 560, ammo = 20, maxAmmo = 20, t_active = True\<rparr>]) \<and>
   ammo (sample_turrets ! 0) = 20 \<and> sample_turrets ! 1 =
       \<lparr>t_x = Fin 400, t_y = Fin 560, ammo = 40, maxAmmo = 40, t_active = True\<rparr>"
  using impact_frame [OF falling_arrived falling_filter] falling_arrived falling_filter
  by (simp add: sample_turrets_def)

section \<open>Spawning\<close>

lemma floor_pick:
  assumes "0 \<le> rp" "rp < 1" "0 < n"
  shows "0 \<le> \<lfloor>rp * real n\<rfloor> \<and> \<lfloor>rp * real n\<rfloor> < int n"
proof -
  have "0 \<le> rp * real n" using assms by simp
  moreover have "rp * real n < real n" using assms by simp
  ultimately show ?thesis by (simp add: floor_less_iff)
qed

text \<open>
  C7: with the random pick in [0, 1), as \<^verbatim>\<open>Math.random()\<close> gives it, a spawn attempt
  with no active turret and no active city returns the state unchanged, without error;
  otherwise it returns without error with exactly one rocket appended, and the x and y of
  that rocket's end are the x and y of one active city or of one active turret.
\<close>

theorem spawn_skip_or_one:
  assumes "0 \<le> rp" "rp < 1"
  shows "((\<forall>c \<in> set (cities g). \<not> c_active c) \<and> (\<forall>t \<in> set (turrets g). \<not> t_active t)
            \<longrightarrow> spawnRocket w rx rp g = Inr g) \<and>
         (\<not> ((\<forall>c \<in> set (cities g). \<not> c_active c) \<and> (\<forall>t \<in> set (turrets g). \<not> t_active t))
            \<longrightarrow> (\<exists>g' r. spawnRocket w rx rp g = Inr g' \<and> rockets g' = rockets g @ [r] \<and>
                  turrets g' = turrets g \<and> cities g' = cities g \<and>
                  ((\<exists>c \<in> set (cities g).
                      c_active c \<and> px (r_end r) = c_x c \<and> py (r_end r) = c_y c) \<or>
                   (\<exists>t \<in> set (turrets g).
                      t_active t \<and> px (r_end r) = t_x t \<and> py (r_end r) = t_y t))))"
proof (intro conjI impI)
  assume "(\<forall>c \<in> set (cities g). \<not> c_active c) \<and> (\<forall>t \<in> set (turrets g). \<not> t_active t)"
  then have "targets g = []" by (simp add: targets_def filter_empty_conv)
  then show "spawnRocket w rx rp g = Inr g" by (simp add: spawnRocket_def)
next
  assume "\<not> ((\<forall>c \<in> set (cities g). \<not> c_active c) \<and> (\<forall>t \<in> set (turrets g). \<not> t_active t))"
  then have ne: "0 < length (targets g)" by (auto simp add: targets_def filter_empty_conv)
  let ?k = "\<lfloor>rp * real (length (targets g))\<rfloor>"
  let ?p = "targets g ! nat ?k"
  have k: "0 \<le> ?k \<and> ?k < int (length (targets g))" using floor_pick [OF assms ne] .
  then have "nat ?k < length (targets g)" by linarith
  then have "?p \<in> set (targets g)" by (rule nth_mem)
  then have "?p \<in> (\<lambda>c. \<lparr>px = c_x c, py = c_y c\<rparr>) ` {c \<in> set (cities g). c_active c} \<union>
                  (\<lambda>t. \<lparr>px = t_x t, py = t_y t\<rparr>) ` {t \<in> set (turrets g). t_active t}"
    by (auto simp add: targets_def city_pos_def turret_pos_def)
  then have fld: "(\<exists>c \<in> set (cities g). c_active c \<and> px ?p = c_x c \<and> py ?p = c_y c) \<or>
                  (\<exists>t \<in> set (turrets g). t_active t \<and> px ?p = t_x t \<and> py ?p = t_y t)"
    by auto
  show "\<exists>g' r. spawnRocket w rx rp g = Inr g' \<and> rockets g' = rockets g @ [r] \<and>
                  turrets g' = turrets g \<and> cities g' = cities g \<and>
                  ((\<exists>c \<in> set (cities g).
                      c_active c \<and> px (r_end r) = c_x c \<and> py (r_end r) = c_y c) \<or>
                   (\<exists>t \<in> set (turrets g).
                      t_active t \<and> px (r_end r) = t_x t \<and> py (r_end r) = t_y t))"
    using ne k fld by (simp add: spawnRocket_def Let_def)
qed

theorem spawn_skip_or_one_witness:
  "(0::real) \<le> 0 \<and> (0::real) < 1 \<and>
   (\<exists>g' r. spawnRocket 800 0.5 0 sample_game = Inr g' \<and> rockets g' = rockets sample_game @ [r] \<and>
      ((\<exists>c \<in> set (cities sample_game).
          c_active c \<and> px (r_end r) = c_x c \<and> py (r_end r) = c_y c) \<or>
       (\<exists>t \<in> set (turrets sample_game).
          t_active t \<and> px (r_end r) = t_x t \<and> py (r_end r) = t_y t))) \<and>
   (\<exists>g' r. spawnRocket 800 0.5 0 sample_game = Inr g' \<and> rockets g' = [r] \<and>
      r_end r = \<lparr>px = Fin 144, py = Fin 560\<rparr>) \<and>
   spawnRocket 800 0.5 0 (sample_game\<lparr>turrets := [], cities := []\<rparr>) =
     Inr (sample_game\<lparr>turrets := [], cities := []\<rparr>)"
proof -
  have a: "(0::real) \<le> 0" and b: "(0::real) < 1" by simp_all
  have c: "\<exists>c \<in> set (cities sample_game). c_active c"
    by (simp add: sample_game_def sample_cities_def)
  have "spawnRocket 800 0.5 0 (sample_game\<lparr>turrets := [], cities := []\<rparr>) =
     Inr (sample_game\<lparr>turrets := [], cities := []\<rparr>)"
    using spawn_skip_or_one [OF a b, of "sample_game\<lparr>turrets := [], cities := []\<rparr>" 800 "0.5"]
    by simp
  moreover have "\<exists>g' r. spawnRocket 800 0.5 0 sample_game = Inr g' \<and>
      rockets g' = rockets sample_game @ [r] \<and>
      ((\<exists>c \<in> set (cities sample_game).
          c_active c \<and> px (r_end r) = c_x c \<and> py (r_end r) = c_y c) \<or>
       (\<exists>t \<in> set (turrets sample_game).
          t_active t \<and> px (r_end r) = t_x t \<and> py (r_end r) = t_y t))"
    using spawn_skip_or_one [OF a b, of sample_game 800 "0.5"] c by blast
  moreover have "\<exists>g' r. spawnRocket 800 0.5 0 sample_game = Inr g' \<and> rockets g' = [r] \<and>
      r_end r = \<lparr>px = Fin 144, py = Fin 560\<rparr>"
    by (simp add: spawnRocket_def targets_def sample_game_def sample_cities_def
        sample_turrets_def city_pos_def turret_pos_def Let_def)
  ultimately show ?thesis by simp
qed

text \<open>
  With the random pick in [0, 1) neither \<^verbatim>\<open>spawnRocket\<close> nor \<^verbatim>\<open>update\<close> throws: every call
  returns a state.
\<close>

lemma spawn_returns:
  assumes "0 \<le> rp" and "rp < 1"
  shows "\<exists>g'. spawnRocket w rx rp g = Inr g'"
proof (cases "length (targets g) = 0")
  case True
  then show ?thesis by (simp add: spawnRocket_def)
next
  case False
  then have "0 < length (targets g)" by simp
  from floor_pick [OF assms this] False show ?thesis by (simp add: spawnRocket_def Let_def)
qed

lemma update_returns:
  assumes "0 \<le> rnd_pick inp" and "rnd_pick inp < 1"
  shows "\<exists>g'. update inp g = Inr g'"
proof -
  have sp: "\<exists>g1. spawn_step inp w g = Inr g1" for w
    using spawn_returns [OF assms, of w "rnd_x inp" g] by (auto simp add: spawn_step_def)
  show ?thesis
  proof (cases "gameState g \<noteq> PLAYING \<or> canvas inp = None")
    case True
    then show ?thesis by (auto simp add: update_def)
  next
    case False
    then obtain w h where c: "canvas inp = Some (w, h)" and p: "gameState g = PLAYING" by auto
    from sp [of w] obtain g1 where "spawn_step inp w g = Inr g1" by blast
    with c p show ?thesis by (simp add: update_def)
  qed
qed

section \<open>Win and loss\<close>

lemma final_active:
  "map t_active (turrets (simulate g)) = map t_active (turrets (rockets_phase g))"
  by (simp add: simulate_unfold brc_unfold refill_turrets_active progress_frame kin_frame)

lemma mid_active:
  "map t_active (turrets (refill800 (refill500 (warnings_phase
       (fst (explosions_phase (interceptors_phase (rockets_phase g)))))))) =
   map t_active (turrets (rockets_phase g))"
  by (simp add: refill_turrets_active progress_frame kin_frame)

lemma all_inactive_map: "(\<forall>t \<in> set ts. \<not> t_active t) = (True \<notin> set (map t_active ts))"
  by auto

lemma pre_win_loss_frame:
  "score (refill800 (refill500 (warnings_phase
       (fst (explosions_phase (interceptors_phase (rockets_phase g))))))) = score g"
  "gameMode (refill800 (refill500 (warnings_phase
       (fst (explosions_phase (interceptors_phase (rockets_phase g))))))) = gameMode g"
  "highScore (refill800 (refill500 (warnings_phase
       (fst (explosions_phase (interceptors_phase (rockets_phase g))))))) = highScore g"
  "stored_high_score (refill800 (refill500 (warnings_phase
       (fst (explosions_phase (interceptors_phase (rockets_phase g))))))) = stored_high_score g"
  "roundN (refill800 (refill500 (warnings_phase
       (fst (explosions_phase (interceptors_phase (rockets_phase g))))))) = roundN g"
  by (simp_all add: progress_frame kin_frame)

text \<open>
  C2, as amended: in a tick during PLAYING, classic mode with a score of at least 1000 gives
  WON, whatever the turrets; in every other case, if every turret is inactive when the
  tick ends, the state becomes LOST, and the high score and its stored copy become the
  score exactly when the score exceeds the high score.
\<close>

theorem loss_unless_classic_win:
  assumes "gameState g = PLAYING" and "canvas inp = Some cv" and "update inp g = Inr g'"
  shows "(gameMode g = CLASSIC \<and> WIN_SCORE \<le> score g \<longrightarrow> gameState g' = WON) \<and>
         (\<not> (gameMode g = CLASSIC \<and> WIN_SCORE \<le> score g) \<and> (\<forall>t \<in> set (turrets g'). \<not> t_active t) \<longrightarrow>
            gameState g' = LOST \<and>
            (highScore g < score g \<longrightarrow>
               highScore g' = score g \<and> stored_high_score g' = Some (score g)) \<and>
            (\<not> highScore g < score g \<longrightarrow>
               highScore g' = highScore g \<and> stored_high_score g' = stored_high_score g))"
proof -
  obtain w h where cv: "cv = (w, h)" by (cases cv)
  from update_playing [OF assms(1) assms(2) [unfolded cv] assms(3)]
  obtain g1 where sp: "spawn_step inp w g = Inr g1" and g': "g' = simulate g1" by blast
  let ?p = "refill800 (refill500 (warnings_phase
       (fst (explosions_phase (interceptors_phase (rockets_phase g1))))))"
  have mid: "fst (before_round_check g1) = win_loss ?p" by (rule brc_unfold)
  have sc: "score ?p = score g" "gameMode ?p = gameMode g" "highScore ?p = highScore g"
    "stored_high_score ?p = stored_high_score g"
    by (simp_all add: pre_win_loss_frame spawn_step_frame [OF sp])
  have "(\<forall>t \<in> set (turrets g'). \<not> t_active t) = (True \<notin> set (map t_active (turrets g')))"
    by (rule all_inactive_map)
  also have "\<dots> = (True \<notin> set (map t_active (turrets ?p)))"
    by (simp only: g' final_active mid_active)
  also have "\<dots> = (\<forall>t \<in> set (turrets ?p). \<not> t_active t)"
    by (rule all_inactive_map [symmetric])
  finally have act: "(\<forall>t \<in> set (turrets g'). \<not> t_active t) =
      list_all (\<lambda>t. \<not> t_active t) (turrets ?p)"
    by (simp add: list_all_iff)
  show ?thesis
    unfolding g' simulate_outcome mid act [unfolded g']
    by (simp add: win_loss_def sc)
qed

text \<open>
  C2 as stated fails: in classic mode with score 1000 the rocket \<open>falling\<close> destroys the only
  turret left, and the tick ends with every turret inactive and the state WON, not LOST.
\<close>

theorem loss_counterexample:
  "gameState classic_1000 = PLAYING \<and> gameMode classic_1000 = CLASSIC \<and>
   update tick0 classic_1000 = Inr classic_1000_after \<and>
   list_all (\<lambda>t. \<not> t_active t) (turrets classic_1000_after) \<and>
   gameState classic_1000_after \<noteq> LOST"
  by (simp add: classic_1000_tick) (simp add: classic_1000_def classic_1000_after_def sample_game_def all_down_def)

theorem loss_unless_classic_win_witness:
  "gameState endless_700 = PLAYING \<and> canvas tick0 = Some (800, 600) \<and>
   update tick0 endless_700 = Inr endless_700_after \<and>
   \<not> (gameMode endless_700 = CLASSIC \<and> WIN_SCORE \<le> score endless_700) \<and>
   list_all (\<lambda>t. \<not> t_active t) (turrets endless_700_after) \<and>
   highScore endless_700 < score endless_700 \<and>
   gameState endless_700_after = LOST \<and> highScore endless_700_after = score endless_700 \<and>
   stored_high_score endless_700_after = Some (score endless_700) \<and>
   gameState classic_1000 = PLAYING \<and> update tick0 classic_1000 = Inr classic_1000_after \<and>
   gameMode classic_1000 = CLASSIC \<and> WIN_SCORE \<le> score classic_1000 \<and>
   gameState classic_1000_after = WON"
proof -
  have a: "gameState endless_700 = PLAYING" and a': "gameState classic_1000 = PLAYING"
    by (simp_all add: endless_700_def classic_1000_def sample_game_def)
  have b: "canvas tick0 = Some (800, 600)" by (simp add: tick0_def)
  have c: "\<not> (gameMode endless_700 = CLASSIC \<and> WIN_SCORE \<le> score endless_700)"
    and d: "\<forall>t \<in> set (turrets endless_700_after). \<not> t_active t"
    and e: "highScore endless_700 < score endless_700"
    by (simp_all add: endless_700_def endless_700_after_def sample_game_def all_down_def)
  have c': "gameMode classic_1000 = CLASSIC \<and> WIN_SCORE \<le> score classic_1000"
    by (simp add: classic_1000_def sample_game_def WIN_SCORE_def)
  from loss_unless_classic_win [OF a b endless_700_tick] c d e
  have "gameState endless_700_after = LOST \<and> highScore endless_700_after = score endless_700 \<and>
     stored_high_score endless_700_after = Some (score endless_700)" by blast
  moreover from loss_unless_classic_win [OF a' b classic_1000_tick] c'
  have "gameState classic_1000_after = WON" by blast
  ultimately show ?thesis using a a' b c d e c' endless_700_tick classic_1000_tick
    by (simp add: list_all_iff)
qed

section \<open>Explosion radius\<close>

lemma fresh_ok: "explosion_ok (impact_explosion p)" "explosion_ok (blast p)"
  by (simp_all add: explosion_ok_def impact_explosion_def blast_def EXPLOSION_SPEED_def
      EXPLOSION_MAX_RADIUS_def)

lemma step_ok:
  assumes "explosion_ok e" and "explosion_alive (explosion_step e)"
  shows "explosion_ok (explosion_step e)"
proof (cases "growing e")
  case True
  with assms(1) show ?thesis
    by (simp add: explosion_ok_def explosion_step_def Let_def EXPLOSION_SPEED_def)
next
  case False
  with assms show ?thesis
    by (simp add: explosion_ok_def explosion_step_def explosion_alive_def EXPLOSION_SPEED_def)
qed

lemma step_monotone:
  "growing e \<Longrightarrow> radius e \<le> radius (explosion_step e)"
  "\<not> growing e \<Longrightarrow> radius (explosion_step e) \<le> radius e"
  by (simp_all add: explosion_step_def Let_def EXPLOSION_SPEED_def)

lemma simulate_ok:
  assumes "\<forall>e \<in> set (explosions g). explosion_ok e"
  shows "\<forall>e \<in> set (explosions (simulate g)). explosion_ok e"
proof -
  have 1: "explosion_ok e" if "e \<in> set (explosions (rockets_phase g))" for e
  proof -
    from rockets_phase_explosions [of g] that
    have "e \<in> set (explosions g) \<or> (\<exists>p. e = impact_explosion p)" by (rule bspec)
    with assms show ?thesis by (auto simp add: fresh_ok)
  qed
  have 2: "explosion_ok e" if "e \<in> set (explosions (interceptors_phase (rockets_phase g)))" for e
  proof -
    from interceptors_phase_explosions [of "rockets_phase g"] that
    have "e \<in> set (explosions (rockets_phase g)) \<or> (\<exists>p. e = blast p)" by (rule bspec)
    with 1 show ?thesis by (auto simp add: fresh_ok)
  qed
  have 3: "explosion_ok e'"
    if "e' \<in> set (explosions (fst (explosions_phase (interceptors_phase (rockets_phase g)))))" for e'
  proof -
    from explosions_phase_explosions [of "interceptors_phase (rockets_phase g)"] that
    have "\<exists>e \<in> set (explosions (interceptors_phase (rockets_phase g))).
            e' = explosion_step e \<and> explosion_alive e'" by (rule bspec)
    then obtain e where "e \<in> set (explosions (interceptors_phase (rockets_phase g)))"
      and e': "e' = explosion_step e" and al: "explosion_alive e'" by blast
    from this(1) have "explosion_ok e" by (rule 2)
    then show ?thesis using al unfolding e' by (rule step_ok)
  qed
  show ?thesis unfolding simulate_explosions using 3 by blast
qed

lemma step_ok_all:
  assumes "step ev g = Inr g'" and "\<forall>e \<in> set (explosions g). explosion_ok e"
  shows "\<forall>e \<in> set (explosions g'). explosion_ok e"
proof (cases ev)
  case (Tick inp)
  with assms(1) have "update inp g = Inr g'" by simp
  from update_cases [OF this] show ?thesis
  proof
    assume "g' = g"
    with assms(2) show ?thesis by simp
  next
    assume "gameState g = PLAYING \<and> (\<exists>w h g1. canvas inp = Some (w, h) \<and>
            spawn_step inp w g = Inr g1 \<and> g' = simulate g1)"
    then obtain w g1 where sp: "spawn_step inp w g = Inr g1" and g': "g' = simulate g1" by blast
    from assms(2) have "\<forall>e \<in> set (explosions g1). explosion_ok e"
      by (simp add: spawn_step_frame [OF sp])
    then show ?thesis unfolding g' by (rule simulate_ok)
  qed
next
  case (Click c)
  with assms show ?thesis by (auto simp add: click_frame)
qed

lemma reach_ok:
  assumes "reach g h" and "\<forall>e \<in> set (explosions g). explosion_ok e"
  shows "\<forall>e \<in> set (explosions h). explosion_ok e"
  using assms
proof (induction rule: reach.induct)
  case (reach_refl g)
  then show ?case .
next
  case (reach_step g h e h')
  from reach_step.hyps(2) reach_step.IH [OF reach_step.prems] show ?case by (rule step_ok_all)
qed

text \<open>
  C3, as amended: from a state without explosions, every explosion of every reachable state
  has a positive radius below maxRadius + EXPLOSION_SPEED, and below maxRadius while it is
  growing; a step does not decrease the radius of a growing explosion and does not
  increase the radius of a shrinking one.
\<close>

theorem explosion_radius_bounds:
  assumes "explosions g = []" and "reach g h"
  shows "\<forall>e \<in> set (explosions h).
           0 < radius e \<and> radius e < maxRadius e + EXPLOSION_SPEED \<and>
           (growing e \<longrightarrow> radius e < maxRadius e) \<and>
           (growing e \<longrightarrow> radius e \<le> radius (explosion_step e)) \<and>
           (\<not> growing e \<longrightarrow> radius (explosion_step e) \<le> radius e)"
proof -
  from assms(1) have "\<forall>e \<in> set (explosions g). explosion_ok e" by simp
  with assms(2) have "\<forall>e \<in> set (explosions h). explosion_ok e" by (rule reach_ok)
  then show ?thesis by (simp add: explosion_ok_def step_monotone)
qed

text \<open>
  C3 as stated fails: the explosion of a ground impact has radius 56 after 30 steps, above its
  maxRadius of 55, and is still alive.
\<close>

theorem explosion_overshoot_counterexample:
  "radius ((explosion_step ^^ 30) (impact_explosion \<lparr>px = Fin 60, py = Fin 560.35\<rparr>)) = 56 \<and>
   maxRadius ((explosion_step ^^ 30) (impact_explosion \<lparr>px = Fin 60, py = Fin 560.35\<rparr>)) = 55 \<and>
   explosion_alive ((explosion_step ^^ 30) (impact_explosion \<lparr>px = Fin 60, py = Fin 560.35\<rparr>))"
  by (simp add: eval_nat_numeral impact_explosion_def explosion_step_def Let_def
      EXPLOSION_SPEED_def explosion_alive_def)

theorem explosion_radius_bounds_witness:
  "explosions endless_700 = [] \<and> reach endless_700 endless_700_after \<and>
   \<lparr>pos = \<lparr>px = Fin 60, py = Fin 560.35\<rparr>, radius = 3.8, maxRadius = 55,
     growing = True, alpha = 1\<rparr> \<in> set (explosions endless_700_after) \<and>
   (3.8::real) < 55 + EXPLOSION_SPEED \<and> (3.8::real) < 55"
proof -
  let ?e = "\<lparr>pos = \<lparr>px = Fin 60, py = Fin 560.35\<rparr>, radius = 3.8, maxRadius = 55,
     growing = True, alpha = 1\<rparr>"
  have a: "explosions endless_700 = []" by (simp add: endless_700_def sample_game_def)
  have "step (Tick tick0) endless_700 = Inr endless_700_after" by (simp add: endless_700_tick)
  with reach_refl have b: "reach endless_700 endless_700_after" by (rule reach_step)
  have c: "?e \<in> set (explosions endless_700_after)" by (simp add: endless_700_after_def)
  from explosion_radius_bounds [OF a b] c
  have "0 < radius ?e \<and> radius ?e < maxRadius ?e + EXPLOSION_SPEED \<and>
           (growing ?e \<longrightarrow> radius ?e < maxRadius ?e) \<and>
           (growing ?e \<longrightarrow> radius ?e \<le> radius (explosion_step ?e)) \<and>
           (\<not> growing ?e \<longrightarrow> radius (explosion_step ?e) \<le> radius ?e)" by (rule bspec)
  then show ?thesis using a b c by simp
qed

section \<open>Round advancement\<close>




section \<open>Zero-length direction\<close>

text \<open>
  C1 fails on the code. A click exactly on the left turret launches an interceptor whose
  start is its target; the kinematics step divides 0 by 0, both coordinates of the current
  position become NaN, the arrival test is false, and the interceptor stays in the list
  unchanged on every later step. A rocket whose start is its end goes the same way.
\<close>

theorem degenerate_interceptor_nan:
  "handleCanvasClick (Some (Fin 60, Fin 560)) sample_game =
     sample_game\<lparr>turrets := sample_turrets[0 := (sample_turrets ! 0)\<lparr>ammo := 19\<rparr>],
                 interceptors := [stuck]\<rparr> \<and>
   i_start stuck = i_target stuck \<and>
   inters_filter [stuck] [] = ([stuck_nan], []) \<and>
   inters_filter [stuck_nan] [] = ([stuck_nan], []) \<and>
   r_start grounded = r_end grounded \<and>
   rockets_filter [grounded] ([], [], []) = ([grounded_nan], [], [], []) \<and>
   rockets_filter [grounded_nan] ([], [], []) = ([grounded_nan], [], [], [])"
proof (intro conjI)
  show "handleCanvasClick (Some (Fin 60, Fin 560)) sample_game =
     sample_game\<lparr>turrets := sample_turrets[0 := (sample_turrets ! 0)\<lparr>ammo := 19\<rparr>],
                 interceptors := [stuck]\<rparr>"
    by (simp add: handleCanvasClick_def sample_game_def nearest_stuck Let_def)
       (simp add: sample_turrets_def stuck_def)
  show "i_start stuck = i_target stuck" by (simp add: stuck_def)
  show "inters_filter [stuck] [] = ([stuck_nan], [])"
    by (simp add: inter_move_def inter_arrived_def stuck_def stuck_nan_def nsub_def Let_def)
  show "inters_filter [stuck_nan] [] = ([stuck_nan], [])"
    by (simp add: inter_move_def inter_arrived_def stuck_def stuck_nan_def nsub_def Let_def)
  show "r_start grounded = r_end grounded" by (simp add: grounded_def)
  show "rockets_filter [grounded] ([], [], []) = ([grounded_nan], [], [], [])"
    by (simp add: rocket_move_def rocket_arrived_def grounded_def grounded_nan_def nsub_def Let_def)
  show "rockets_filter [grounded_nan] ([], [], []) = ([grounded_nan], [], [], [])"
    by (simp add: rocket_move_def rocket_arrived_def grounded_def grounded_nan_def nsub_def Let_def)
qed

section \<open>The refill at 500 points\<close>

lemma all_full_refill: "all_full (map refill ts)"
  by (auto simp add: all_full_def refill_def)


lemma full_refill800:
  "all_full (turrets g) \<or>
     (gameMode g = ENDLESS \<and> 0 < score g \<and> score g mod 800 = 0 \<and> score g \<noteq> lastRefillScore g)
   \<Longrightarrow> all_full (turrets (refill800 g))"
  by (auto simp add: refill800_def all_full_refill)

lemma full_advance: "all_full (turrets g) \<Longrightarrow> all_full (turrets (advance_round g))"
  by (simp add: advance_round_def all_full_refill)


lemma simulate_full800:
  assumes "gameMode g = ENDLESS" and "0 < score g" and "score g mod 800 = 0"
    and "score g \<noteq> lastRefillScore g"
  shows "all_full (turrets (simulate g))"
proof -
  let ?k = "refill500 (warnings_phase (fst (explosions_phase (interceptors_phase (rockets_phase g)))))"
  from assms have "gameMode ?k = ENDLESS \<and> 0 < score ?k \<and> score ?k mod 800 = 0 \<and>
      score ?k \<noteq> lastRefillScore ?k"
    by (simp add: progress_frame kin_frame)
  then have "all_full (turrets (refill800 ?k))" by (simp add: full_refill800)
  then have "all_full (turrets (win_loss (refill800 ?k)))"
    by (simp add: progress_frame)
  then show ?thesis unfolding simulate_turrets by (rule full_advance)
qed



text \<open>The block changes the state exactly when its guard holds.\<close>

lemma refill500_changes:
  "refill500 m \<noteq> m \<longleftrightarrow> 500 \<le> score m \<and> \<not> hasRefilledAt500 m"
proof
  have same: "refill500 m = m" if "\<not> (500 \<le> score m \<and> \<not> hasRefilledAt500 m)"
    using that by (auto simp add: refill500_def)
  assume "refill500 m \<noteq> m"
  with same show "500 \<le> score m \<and> \<not> hasRefilledAt500 m" by blast
next
  assume guard: "500 \<le> score m \<and> \<not> hasRefilledAt500 m"
  then have "hasRefilledAt500 (refill500 m)" by (simp add: refill500_def)
  with guard show "refill500 m \<noteq> m" by auto
qed

lemma at_refill500_frame:
  "score (at_refill500 g) = score g"
  "hasRefilledAt500 (at_refill500 g) = hasRefilledAt500 g"
  "gameMode (at_refill500 g) = gameMode g"
  "lastRefillScore (at_refill500 g) = lastRefillScore g"
  "roundN (at_refill500 g) = roundN g"
  "turrets (at_refill500 g) = turrets (rockets_phase g)"
  by (simp_all add: at_refill500_def progress_frame kin_frame)



text \<open>
  A tick that starts with the latch set, and in which neither the 800-point block (which
  would move \<open>lastRefillScore\<close>) nor the round check (which would move \<open>roundN\<close>) refills,
  leaves the ammo of every turret as it was.
\<close>

lemma ammo_hit: "list_all2 hit_rel ts ts' \<Longrightarrow> map ammo ts' = map ammo ts"
  by (induction rule: list_all2_induct) (simp_all add: hit_rel_def)

lemma simulate_ammo_same:
  assumes "hasRefilledAt500 g"
    and "\<not> (gameMode g = ENDLESS \<and> 0 < score g \<and> score g mod 800 = 0 \<and>
            score g \<noteq> lastRefillScore g)"
    and "roundN (simulate g) = roundN g"
  shows "map ammo (turrets (simulate g)) = map ammo (turrets g)"
proof -
  let ?k = "at_refill500 g"
  let ?m = "fst (before_round_check g)"
  have m: "?m = win_loss (refill800 (refill500 ?k))" by (simp add: brc_unfold at_refill500_def)
  from assms(1) have "\<not> (refill500 ?k \<noteq> ?k)"
    unfolding refill500_changes by (simp add: at_refill500_frame)
  then have k5: "refill500 ?k = ?k" by simp
  from assms(2) have k8: "turrets (refill800 ?k) = turrets ?k"
    by (auto simp add: refill800_def at_refill500_frame)
  from assms(3) have "\<not> round_due ?m" by (simp add: simulate_round split: if_splits)
  then have "turrets (simulate g) = turrets ?m" by (simp add: simulate_round)
  also have "\<dots> = turrets (rockets_phase g)"
    unfolding m by (simp add: progress_frame k5 k8 at_refill500_frame)
  finally show ?thesis using ammo_hit [OF rockets_phase_turrets [of g]] by simp
qed












section \<open>The refill at every 800 points\<close>

lemma step_score: "step ev g = Inr g' \<Longrightarrow> score g \<le> score g'"
proof (cases ev)
  case (Tick inp)
  assume "step ev g = Inr g'"
  with Tick have "update inp g = Inr g'" by simp
  from update_cases [OF this] show ?thesis
  proof
    assume "g' = g" then show ?thesis by simp
  next
    assume "gameState g = PLAYING \<and> (\<exists>w h g1. canvas inp = Some (w, h) \<and>
            spawn_step inp w g = Inr g1 \<and> g' = simulate g1)"
    then obtain w g1 where sp: "spawn_step inp w g = Inr g1" and g': "g' = simulate g1" by blast
    from simulate_score [of g1] show ?thesis unfolding g' by (simp add: spawn_step_frame [OF sp])
  qed
next
  case (Click c)
  assume "step ev g = Inr g'"
  with Click show ?thesis by (auto simp add: click_frame)
qed

lemma step_last:
  assumes "step ev g = Inr g'" and "lastRefillScore g = score g"
  shows "lastRefillScore g' = lastRefillScore g"
proof (cases ev)
  case (Tick inp)
  with assms(1) have "update inp g = Inr g'" by simp
  from update_cases [OF this] show ?thesis
  proof
    assume "g' = g" then show ?thesis by simp
  next
    assume "gameState g = PLAYING \<and> (\<exists>w h g1. canvas inp = Some (w, h) \<and>
            spawn_step inp w g = Inr g1 \<and> g' = simulate g1)"
    then obtain w g1 where sp: "spawn_step inp w g = Inr g1" and g': "g' = simulate g1" by blast
    from assms(2) show ?thesis unfolding g' simulate_last by (simp add: spawn_step_frame [OF sp])
  qed
next
  case (Click c)
  with assms show ?thesis by (auto simp add: click_frame)
qed

lemma reach_last:
  assumes "reach g h" and "lastRefillScore g = m" and "m \<le> score g"
  shows "m \<le> score h \<and> (score h = m \<longrightarrow> lastRefillScore h = m)"
  using assms
proof (induction rule: reach.induct)
  case (reach_refl g)
  then show ?case by simp
next
  case (reach_step g h e h')
  from reach_step.IH [OF reach_step.prems]
  have ih: "m \<le> score h" "score h = m \<longrightarrow> lastRefillScore h = m" by simp_all
  from step_score [OF reach_step.hyps(2)] have mono: "score h \<le> score h'" .
  show ?case
  proof
    from ih(1) mono show "m \<le> score h'" by simp
    show "score h' = m \<longrightarrow> lastRefillScore h' = m"
    proof
      assume "score h' = m"
      with ih(1) mono have "score h = m" by simp
      with ih(2) have l: "lastRefillScore h = m" by simp
      with \<open>score h = m\<close> have "lastRefillScore h = score h" by simp
      from step_last [OF reach_step.hyps(2) this] l show "lastRefillScore h' = m" by simp
    qed
  qed
qed

text \<open>
  What does hold of the 800-point refill: on a tick that reads a positive multiple of 800
  other than the last refill score it refills every active turret, and while the score
  stays there no later tick refills again (with the 500-point latch set and no new round,
  the ammo of every turret stays as it is).
\<close>

lemma refill800_at_multiple:
  assumes "gameState g = PLAYING" and "canvas inp = Some cv" and "update inp g = Inr g'"
    and "gameMode g = ENDLESS" and "0 < score g" and "score g mod 800 = 0"
    and "score g \<noteq> lastRefillScore g"
  shows "(\<forall>t \<in> set (turrets g'). t_active t \<longrightarrow> ammo t = maxAmmo t) \<and>
         lastRefillScore g' = score g \<and>
         (\<forall>h inp' h'. reach g' h \<and> score h = score g \<and> update inp' h = Inr h' \<and>
            hasRefilledAt500 h \<and> roundN h' = roundN h \<longrightarrow>
            map ammo (turrets h') = map ammo (turrets h))"
proof -
  obtain w h where cv: "cv = (w, h)" by (cases cv)
  from update_playing [OF assms(1) assms(2) [unfolded cv] assms(3)]
  obtain g1 where sp: "spawn_step inp w g = Inr g1" and g': "g' = simulate g1" by blast
  have fr: "score g1 = score g" "lastRefillScore g1 = lastRefillScore g" "gameMode g1 = gameMode g"
    by (simp_all add: spawn_step_frame [OF sp])
  have "all_full (turrets (simulate g1))" using assms(4-7) fr by (simp add: simulate_full800)
  then have full: "\<forall>t \<in> set (turrets g'). t_active t \<longrightarrow> ammo t = maxAmmo t"
    unfolding g' all_full_def .
  have last: "lastRefillScore g' = score g" unfolding g' simulate_last using assms(4-7) fr by simp
  have sc: "score g \<le> score g'" unfolding g' using simulate_score [of g1] fr by simp
  have later: "map ammo (turrets k') = map ammo (turrets k)"
    if "reach g' k \<and> score k = score g \<and> update inp' k = Inr k' \<and>
        hasRefilledAt500 k \<and> roundN k' = roundN k" for k inp' k'
  proof -
    from that have r: "reach g' k" and s: "score k = score g" and u: "update inp' k = Inr k'"
      and l: "hasRefilledAt500 k" and n: "roundN k' = roundN k" by simp_all
    from reach_last [OF r last sc] s have eq: "lastRefillScore k = score k" by simp
    from update_cases [OF u] show ?thesis
    proof
      assume "k' = k"
      then show ?thesis by simp
    next
      assume "gameState k = PLAYING \<and> (\<exists>w ht k1. canvas inp' = Some (w, ht) \<and>
            spawn_step inp' w k = Inr k1 \<and> k' = simulate k1)"
      then obtain w' k1 where sp': "spawn_step inp' w' k = Inr k1" and k': "k' = simulate k1"
        by blast
      note fr' = spawn_step_frame [OF sp']
      from l eq n have "map ammo (turrets (simulate k1)) = map ammo (turrets k1)"
        unfolding k' by (intro simulate_ammo_same) (simp_all add: fr')
      then show ?thesis unfolding k' by (simp add: fr')
    qed
  qed
  from full last later show ?thesis by blast
qed

lemma reach_score: "reach g h \<Longrightarrow> score g \<le> score h"
proof (induction rule: reach.induct)
  case (reach_refl g)
  show ?case by simp
next
  case (reach_step g h e h')
  from reach_step.IH step_score [OF reach_step.hyps(2)] show ?case by simp
qed

lemma pair_filter:
  "rockets_filter [left_rocket, right_rocket] (es, cs, ts) =
     ([left_rocket\<lparr>r_current := \<lparr>px = Fin 400, py = Fin 299.7\<rparr>\<rparr>,
       right_rocket\<lparr>r_current := \<lparr>px = Fin 496, py = Fin 299.7\<rparr>\<rparr>],
      es, cs, ts)"
  by (simp add: rocket_move_def rocket_arrived_def left_rocket_def right_rocket_def nsub_def
      Let_def sqrt560)

lemma pair_blast:
  "explosions_filter [blast_47]
     ([left_rocket\<lparr>r_current := \<lparr>px = Fin 400, py = Fin 299.7\<rparr>\<rparr>,
       right_rocket\<lparr>r_current := \<lparr>px = Fin 496, py = Fin 299.7\<rparr>\<rparr>], 0) =
     ([blast_47\<lparr>radius := 48.8\<rparr>], [], 2)"
  by (simp add: explosion_step_def in_blast_def explosion_alive_def blast_47_def
      EXPLOSION_SPEED_def EXPLOSION_MAX_RADIUS_def left_rocket_def right_rocket_def nsub_def
      Let_def)

lemma endless_780_tick: "update tick0 endless_780 = Inr endless_820"
  by (simp add: update_def tick0_def endless_780_def endless_820_def sample_game_def
      spawn_step_def simulate_def before_round_check_def rockets_phase_def pair_filter
      interceptors_phase_def explosions_phase_def pair_blast warnings_phase_def refill500_def
      refill800_def win_loss_def WIN_SCORE_def ROCKET_SCORE_def advance_round_def round_due_def
      refill_def Let_def used_turrets_def
      del: rockets_filter.simps explosions_filter.simps)

lemma endless_820_tick: "update tick0 endless_820 = Inr endless_820_next"
  by (simp add: update_def tick0_def endless_780_def endless_820_def endless_820_next_def
      sample_game_def spawn_step_def simulate_def before_round_check_def rockets_phase_def
      interceptors_phase_def explosions_phase_def explosion_step_def explosion_alive_def
      blast_47_def EXPLOSION_SPEED_def EXPLOSION_MAX_RADIUS_def warnings_phase_def
      refill500_def refill800_def win_loss_def WIN_SCORE_def ROCKET_SCORE_def
      advance_round_def round_due_def refill_def Let_def used_turrets_def)

text \<open>After that tick the score is past 800 for good: no later tick ever reads 800.\<close>

lemma never_800_again: "reach endless_820 h \<Longrightarrow> score h \<noteq> 800"
proof -
  assume "reach endless_820 h"
  then have "score endless_820 \<le> score h" by (rule reach_score)
  then show ?thesis by (simp add: endless_820_def endless_780_def)
qed

text \<open>
  C4 fails on the code. In endless mode at 780 points one blast destroys two rockets in the
  same tick; both increments are queued, the next tick reads 820, and the score has crossed
  800 without any tick reading 800. The 800-point block tests \<^verbatim>\<open>score % 800 === 0\<close>, so
  it fires neither in that tick nor in the next: the turrets keep ammo 5, 0 and 20 of 20,
  40 and 20, and the last refill score stays 0.
\<close>

theorem refill800_skips_crossing:
  "gameState endless_780 = PLAYING \<and> gameMode endless_780 = ENDLESS \<and>
   score endless_780 = 780 \<and> lastRefillScore endless_780 = 0 \<and>
   map ammo (turrets endless_780) = [5, 0, 20] \<and>
   map maxAmmo (turrets endless_780) = [20, 40, 20] \<and>
   map t_active (turrets endless_780) = [True, True, True] \<and>
   update tick0 endless_780 = Inr endless_820 \<and>
   score endless_820 = 820 \<and> lastRefillScore endless_820 = 0 \<and>
   map ammo (turrets endless_820) = [5, 0, 20] \<and>
   update tick0 endless_820 = Inr endless_820_next \<and>
   score endless_820_next = 820 \<and> lastRefillScore endless_820_next = 0 \<and>
   map ammo (turrets endless_820_next) = [5, 0, 20]"
  by (simp add: endless_780_tick endless_820_tick)
     (simp add: endless_780_def endless_820_def endless_820_next_def sample_game_def
        used_turrets_def)

section \<open>A destroyed turret that holds ammo\<close>

lemma nearest_some:
  "nearest x y ts idx acc = (Some b, d) \<Longrightarrow>
   fst acc = Some b \<or>
   (idx \<le> b \<and> b < idx + length ts \<and> t_active (ts ! (b - idx)) \<and> 0 < ammo (ts ! (b - idx)))"
proof (induction ts arbitrary: idx acc)
  case Nil
  then show ?case by simp
next
  case (Cons t ts)
  obtain best minDist where acc: "acc = (best, minDist)" by (cases acc)
  let ?dist = "nsqrt (nadd (nmul (nsub (t_x t) x) (nsub (t_x t) x))
                                (nmul (nsub (t_y t) y) (nsub (t_y t) y)))"
  show ?case
  proof (cases "t_active t \<and> 0 < ammo t \<and> nlt ?dist minDist")
    case True
    with Cons.prems acc have "nearest x y ts (Suc idx) (Some idx, ?dist) = (Some b, d)"
      by (simp add: Let_def)
    from Cons.IH [OF this]
    have "b = idx \<or> (Suc idx \<le> b \<and> b < Suc idx + length ts \<and>
        t_active (ts ! (b - Suc idx)) \<and> 0 < ammo (ts ! (b - Suc idx)))" by auto
    then show ?thesis
    proof
      assume "b = idx"
      with True show ?thesis by simp
    next
      assume r: "Suc idx \<le> b \<and> b < Suc idx + length ts \<and>
        t_active (ts ! (b - Suc idx)) \<and> 0 < ammo (ts ! (b - Suc idx))"
      then have "b - idx = Suc (b - Suc idx)" by arith
      with r show ?thesis by simp
    qed
  next
    case False
    with Cons.prems acc have "nearest x y ts (Suc idx) (best, minDist) = (Some b, d)"
      by (auto simp add: Let_def split: if_splits)
    from Cons.IH [OF this]
    have "best = Some b \<or> (Suc idx \<le> b \<and> b < Suc idx + length ts \<and>
        t_active (ts ! (b - Suc idx)) \<and> 0 < ammo (ts ! (b - Suc idx)))" by auto
    then show ?thesis
    proof
      assume "best = Some b"
      with acc show ?thesis by simp
    next
      assume r: "Suc idx \<le> b \<and> b < Suc idx + length ts \<and>
        t_active (ts ! (b - Suc idx)) \<and> 0 < ammo (ts ! (b - Suc idx))"
      then have "b - idx = Suc (b - Suc idx)" by arith
      with r show ?thesis by simp
    qed
  qed
qed

lemma click_turrets:
  "turrets (handleCanvasClick c g) = turrets g \<or>
   (\<exists>b. b < length (turrets g) \<and> t_active (turrets g ! b) \<and>
        turrets (handleCanvasClick c g) = (turrets g)[b := (turrets g ! b)\<lparr>ammo := ammo (turrets g ! b) - 1\<rparr>])"
proof (cases "gameState g \<noteq> PLAYING")
  case True
  then show ?thesis by (simp add: handleCanvasClick_def)
next
  case playing: False
  show ?thesis
  proof (cases c)
    case None
    then show ?thesis by (simp add: handleCanvasClick_def)
  next
    case (Some xy)
    obtain x y where xy: "xy = (x, y)" by (cases xy)
    show ?thesis
    proof (cases "fst (nearest x y (turrets g) 0 (None, PInf))")
      case None
      with Some xy show ?thesis by (simp add: handleCanvasClick_def)
    next
      case (Some b)
      obtain d where "nearest x y (turrets g) 0 (None, PInf) = (Some b, d)"
        using Some by (cases "nearest x y (turrets g) 0 (None, PInf)") simp
      from nearest_some [OF this]
      have b: "b < length (turrets g) \<and> t_active (turrets g ! b)" by simp
      have "turrets (handleCanvasClick c g) =
          (turrets g)[b := (turrets g ! b)\<lparr>ammo := ammo (turrets g ! b) - 1\<rparr>]"
        using playing \<open>c = Some xy\<close> xy Some by (simp add: handleCanvasClick_def Let_def)
      with b show ?thesis by blast
    qed
  qed
qed

lemma wreck_click:
  assumes "wreck_with_ammo (turrets g)"
  shows "wreck_with_ammo (turrets (handleCanvasClick c g))"
proof -
  from assms obtain t where t: "t \<in> set (turrets g)" "\<not> t_active t" "0 < ammo t"
    by (auto simp add: wreck_with_ammo_def)
  from t(1) obtain j where j: "j < length (turrets g)" "turrets g ! j = t"
    by (auto simp add: in_set_conv_nth)
  from click_turrets [of c g] show ?thesis
  proof
    assume "turrets (handleCanvasClick c g) = turrets g"
    with assms show ?thesis by simp
  next
    assume "\<exists>b. b < length (turrets g) \<and> t_active (turrets g ! b) \<and>
        turrets (handleCanvasClick c g) = (turrets g)[b := (turrets g ! b)\<lparr>ammo := ammo (turrets g ! b) - 1\<rparr>]"
    then obtain b where b: "b < length (turrets g)" "t_active (turrets g ! b)"
      and eq: "turrets (handleCanvasClick c g) =
         (turrets g)[b := (turrets g ! b)\<lparr>ammo := ammo (turrets g ! b) - 1\<rparr>]" by blast
    from b(2) j(2) t(2) have "j \<noteq> b" by auto
    then have "turrets (handleCanvasClick c g) ! j = t" unfolding eq using j by simp
    moreover have "j < length (turrets (handleCanvasClick c g))" unfolding eq using j by simp
    ultimately have "t \<in> set (turrets (handleCanvasClick c g))" by (metis nth_mem)
    with t show ?thesis by (auto simp add: wreck_with_ammo_def)
  qed
qed

lemma wreck_hit:
  assumes "wreck_with_ammo ts" and "list_all2 hit_rel ts ts'"
  shows "wreck_with_ammo ts'"
proof -
  from assms(1) obtain t where t: "t \<in> set ts" "\<not> t_active t" "0 < ammo t"
    by (auto simp add: wreck_with_ammo_def)
  from t(1) obtain j where j: "j < length ts" "ts ! j = t" by (auto simp add: in_set_conv_nth)
  from assms(2) j(1) have "hit_rel (ts ! j) (ts' ! j)" and "j < length ts'"
    by (simp_all add: list_all2_conv_all_nth)
  with j(2) t have "\<not> t_active (ts' ! j) \<and> 0 < ammo (ts' ! j)" by (simp add: hit_rel_def)
  with \<open>j < length ts'\<close> show ?thesis unfolding wreck_with_ammo_def by (metis nth_mem)
qed

lemma wreck_refill: "wreck_with_ammo ts \<Longrightarrow> wreck_with_ammo (map refill ts)"
  by (auto simp add: wreck_with_ammo_def refill_def)

lemma wreck_progress:
  "wreck_with_ammo (turrets g) \<Longrightarrow> wreck_with_ammo (turrets (refill500 g))"
  "wreck_with_ammo (turrets g) \<Longrightarrow> wreck_with_ammo (turrets (refill800 g))"
  "wreck_with_ammo (turrets g) \<Longrightarrow> wreck_with_ammo (turrets (advance_round g))"
  by (simp_all add: refill500_def refill800_def advance_round_def wreck_refill)

lemma wreck_mid:
  assumes "wreck_with_ammo (turrets g)"
  shows "wreck_with_ammo (turrets (fst (before_round_check g)))"
proof -
  from assms rockets_phase_turrets [of g]
  have "wreck_with_ammo (turrets (rockets_phase g))" by (rule wreck_hit)
  then have "wreck_with_ammo (turrets (warnings_phase
       (fst (explosions_phase (interceptors_phase (rockets_phase g))))))"
    by (simp add: progress_frame kin_frame)
  then show ?thesis unfolding brc_unfold by (simp add: progress_frame wreck_progress)
qed

lemma wreck_not_due: "wreck_with_ammo (turrets g) \<Longrightarrow> \<not> round_due g"
  by (auto simp add: wreck_with_ammo_def round_due_def list_all_iff)

lemma wreck_simulate:
  assumes "wreck_with_ammo (turrets g)"
  shows "wreck_with_ammo (turrets (simulate g)) \<and> roundN (simulate g) = roundN g"
  using wreck_not_due [OF wreck_mid [OF assms]] wreck_mid [OF assms]
  by (simp add: simulate_round)

lemma wreck_step:
  assumes "step ev g = Inr g'" and "wreck_with_ammo (turrets g)"
  shows "wreck_with_ammo (turrets g') \<and> roundN g' = roundN g"
proof (cases ev)
  case (Tick inp)
  with assms(1) have "update inp g = Inr g'" by simp
  from update_cases [OF this] show ?thesis
  proof
    assume "g' = g" with assms(2) show ?thesis by simp
  next
    assume "gameState g = PLAYING \<and> (\<exists>w h g1. canvas inp = Some (w, h) \<and>
            spawn_step inp w g = Inr g1 \<and> g' = simulate g1)"
    then obtain w g1 where sp: "spawn_step inp w g = Inr g1" and g': "g' = simulate g1" by blast
    from assms(2) have "wreck_with_ammo (turrets g1)" by (simp add: spawn_step_frame [OF sp])
    from wreck_simulate [OF this] show ?thesis unfolding g' by (simp add: spawn_step_frame [OF sp])
  qed
next
  case (Click c)
  with assms show ?thesis by (auto simp add: click_frame wreck_click)
qed

lemma wreck_reach:
  assumes "reach g h" and "wreck_with_ammo (turrets g)"
  shows "wreck_with_ammo (turrets h) \<and> roundN h = roundN g"
  using assms
proof (induction rule: reach.induct)
  case (reach_refl g)
  then show ?case by simp
next
  case (reach_step g h e h')
  from reach_step.IH [OF reach_step.prems]
  have ih: "wreck_with_ammo (turrets h)" "roundN h = roundN g" by simp_all
  from wreck_step [OF reach_step.hyps(2) ih(1)] ih(2) show ?case by simp
qed

text \<open>
  C9: once some turret is inactive with ammo above 0, in every state reachable by ticks and
  clicks the round counter has the same value, some turret is still inactive with ammo above
  0, and the round check of any tick from there finds its condition false.
\<close>

theorem wreck_blocks_rounds:
  assumes "\<exists>t \<in> set (turrets g). \<not> t_active t \<and> 0 < ammo t" and "reach g h"
  shows "roundN h = roundN g \<and>
         (\<exists>t \<in> set (turrets h). \<not> t_active t \<and> 0 < ammo t) \<and>
         (\<forall>inp w g1. spawn_step inp w h = Inr g1 \<longrightarrow>
            \<not> (rockets (fst (before_round_check g1)) = [] \<and>
               interceptors (fst (before_round_check g1)) = [] \<and>
               (\<forall>t \<in> set (turrets (fst (before_round_check g1))). ammo t = 0)))"
proof -
  from assms(1) have "wreck_with_ammo (turrets g)" by (simp add: wreck_with_ammo_def)
  from wreck_reach [OF assms(2) this]
  have w: "wreck_with_ammo (turrets h)" and r: "roundN h = roundN g" by simp_all
  have "\<not> (rockets (fst (before_round_check g1)) = [] \<and>
               interceptors (fst (before_round_check g1)) = [] \<and>
               (\<forall>t \<in> set (turrets (fst (before_round_check g1))). ammo t = 0))"
    if sp: "spawn_step inp w h = Inr g1" for inp w g1
  proof -
    from w have "wreck_with_ammo (turrets g1)" by (simp add: spawn_step_frame [OF sp])
    from wreck_not_due [OF wreck_mid [OF this]] show ?thesis
      by (auto simp add: round_due_def list_all_iff)
  qed
  with w r show ?thesis unfolding wreck_with_ammo_def by blast
qed

theorem wreck_blocks_rounds_witness:
  "\<lparr>t_x = Fin 60, t_y = Fin 560, ammo = 3, maxAmmo = 20, t_active = False\<rparr> \<in> set (turrets wreck_game) \<and>
   reach wreck_game wreck_game \<and> step (Tick tick0) wreck_game = Inr wreck_game \<and>
   wreck_with_ammo (turrets wreck_game) \<and>
   spawn_step tick0 800 wreck_game = Inr wreck_game \<and>
   round_due (fst (before_round_check wreck_game)) = False"
proof -
  have m: "\<lparr>t_x = Fin 60, t_y = Fin 560, ammo = 3, maxAmmo = 20, t_active = False\<rparr>
      \<in> set (turrets wreck_game)"
    by (simp add: wreck_game_def wreck_turrets_def)
  then have a: "\<exists>t \<in> set (turrets wreck_game). \<not> t_active t \<and> 0 < ammo t"
    by (rule bexI [rotated]) simp
  have s: "step (Tick tick0) wreck_game = Inr wreck_game" by (simp add: wreck_game_tick)
  with reach_refl have r: "reach wreck_game wreck_game" by (rule reach_step)
  have sp: "spawn_step tick0 800 wreck_game = Inr wreck_game"
    by (simp add: spawn_step_def tick0_def wreck_game_def sample_game_def)
  note t = wreck_blocks_rounds [OF a r]
  from t sp have "\<not> round_due (fst (before_round_check wreck_game))"
    by (auto simp add: round_due_def list_all_iff)
  moreover from t have "wreck_with_ammo (turrets wreck_game)"
    unfolding wreck_with_ammo_def by blast
  ultimately show ?thesis using m r s sp by simp
qed

section \<open>Approach of a rocket\<close>

lemma dist_on_path:
  fixes dx dy L t :: real
  assumes L: "L = sqrt (dx * dx + dy * dy)" and pos: "0 < L"
  shows "sqrt ((dx - t * (dx / L)) * (dx - t * (dx / L)) +
               (dy - t * (dy / L)) * (dy - t * (dy / L))) = \<bar>L - t\<bar>"
proof -
  have "L * L = \<bar>dx * dx + dy * dy\<bar>" unfolding L by (rule real_sqrt_mult_self)
  then have LL: "dx * dx + dy * dy = L * L" by simp
  have a: "dx - t * (dx / L) = dx * ((L - t) / L)"
    and b: "dy - t * (dy / L) = dy * ((L - t) / L)"
    using pos by (simp_all add: field_simps)
  have sq: "(dx * k) * (dx * k) + (dy * k) * (dy * k) = (dx * dx + dy * dy) * (k * k)" for k :: real
    by (simp add: algebra_simps)
  have "(dx - t * (dx / L)) * (dx - t * (dx / L)) + (dy - t * (dy / L)) * (dy - t * (dy / L)) =
        (dx * dx + dy * dy) * (((L - t) / L) * ((L - t) / L))"
    unfolding a b by (rule sq)
  also have "\<dots> = (L - t) * (L - t)" unfolding LL using pos by simp
  finally show ?thesis by simp
qed

lemma nsqrt_squares: "nsqrt (Fin (a * a + b * b)) = Fin (sqrt (a * a + b * b))"
  by (simp add: not_sum_squares_lt_zero)

lemma nsub_Fin: "nsub (Fin a) (Fin b) = Fin (a - b)"
  by (simp add: nsub_def)

lemma rocket_move_fin:
  assumes "r_start r = \<lparr>px = Fin sx, py = Fin sy\<rparr>" and "r_end r = \<lparr>px = Fin ex, py = Fin ey\<rparr>"
    and "r_current r = \<lparr>px = Fin cx, py = Fin cy\<rparr>" and "sy < ey"
    and "ux = (ex - sx) / sqrt ((ex - sx) * (ex - sx) + (ey - sy) * (ey - sy))"
    and "uy = (ey - sy) / sqrt ((ex - sx) * (ex - sx) + (ey - sy) * (ey - sy))"
  shows "rocket_move r = r\<lparr>r_current := \<lparr>px = Fin (cx + ux * r_speed r),
                                        py = Fin (cy + uy * r_speed r)\<rparr>\<rparr>"
proof -
  from assms(4) have "(ex - sx) * (ex - sx) + (ey - sy) * (ey - sy) \<noteq> 0"
    by (simp add: sum_squares_eq_zero_iff)
  then have nz: "sqrt ((ex - sx) * (ex - sx) + (ey - sy) * (ey - sy)) \<noteq> 0" by simp
  have "rocket_move r = r\<lparr>r_current :=
      \<lparr>px = nadd (Fin cx) (nmul (ndiv (Fin (ex - sx))
               (Fin (sqrt ((ex - sx) * (ex - sx) + (ey - sy) * (ey - sy))))) (Fin (r_speed r))),
       py = nadd (Fin cy) (nmul (ndiv (Fin (ey - sy))
               (Fin (sqrt ((ex - sx) * (ex - sx) + (ey - sy) * (ey - sy))))) (Fin (r_speed r)))\<rparr>\<rparr>"
    by (simp only: rocket_move_def Let_def assms(1-3) point.simps nsub_Fin nmul.simps nadd.simps
        nsqrt_squares)
  also have "\<dots> = r\<lparr>r_current := \<lparr>px = Fin (cx + ux * r_speed r),
                                   py = Fin (cy + uy * r_speed r)\<rparr>\<rparr>"
    using nz by (simp add: assms(5,6))
  finally show ?thesis .
qed

lemma rocket_path:
  assumes "r_start r = \<lparr>px = Fin sx, py = Fin sy\<rparr>" and "r_end r = \<lparr>px = Fin ex, py = Fin ey\<rparr>"
    and "r_current r = r_start r" and "sy < ey"
    and "ux = (ex - sx) / sqrt ((ex - sx) * (ex - sx) + (ey - sy) * (ey - sy))"
    and "uy = (ey - sy) / sqrt ((ex - sx) * (ex - sx) + (ey - sy) * (ey - sy))"
  shows "(rocket_move ^^ n) r = r\<lparr>r_current :=
           \<lparr>px = Fin (sx + (real n * r_speed r) * ux),
            py = Fin (sy + (real n * r_speed r) * uy)\<rparr>\<rparr>"
proof (induction n)
  case 0
  from assms(1,3) show ?case by simp
next
  case (Suc n)
  let ?r = "r\<lparr>r_current := \<lparr>px = Fin (sx + (real n * r_speed r) * ux),
                               py = Fin (sy + (real n * r_speed r) * uy)\<rparr>\<rparr>"
  have more: "a + (real n * s) * u + u * s = a + (real (Suc n) * s) * u" for a s u :: real
    by (simp add: algebra_simps)
  have "(rocket_move ^^ Suc n) r = rocket_move ?r" using Suc.IH by simp
  also have "\<dots> = ?r\<lparr>r_current :=
           \<lparr>px = Fin (sx + (real n * r_speed r) * ux + ux * r_speed ?r),
            py = Fin (sy + (real n * r_speed r) * uy + uy * r_speed ?r)\<rparr>\<rparr>"
    by (rule rocket_move_fin [OF _ _ _ assms(4) assms(5) assms(6)]) (simp_all add: assms(1,2))
  also have "\<dots> = r\<lparr>r_current :=
           \<lparr>px = Fin (sx + (real n * r_speed r) * ux + ux * r_speed r),
            py = Fin (sy + (real n * r_speed r) * uy + uy * r_speed r)\<rparr>\<rparr>"
    by simp
  also have "\<dots> = r\<lparr>r_current :=
           \<lparr>px = Fin (sx + (real (Suc n) * r_speed r) * ux),
            py = Fin (sy + (real (Suc n) * r_speed r) * uy)\<rparr>\<rparr>"
    by (simp only: more)
  finally show ?case .
qed

lemma dist_to_end_fin:
  assumes "r_end r = \<lparr>px = Fin ex, py = Fin ey\<rparr>" and "r_current r = \<lparr>px = Fin cx, py = Fin cy\<rparr>"
  shows "dist_to_end r = Fin (sqrt ((ex - cx) * (ex - cx) + (ey - cy) * (ey - cy)))"
  by (simp only: dist_to_end_def Let_def assms point.simps nsub_Fin nmul.simps nadd.simps
      nsqrt_squares)

text \<open>
  C8, as amended: a rocket spawned at its start, with finite coordinates, its end strictly
  below its start and a positive speed, is strictly closer to its end after every kinematics
  step that leaves it short of arrival.
\<close>

theorem rocket_approaches:
  assumes "r_start r = \<lparr>px = Fin sx, py = Fin sy\<rparr>" and "r_end r = \<lparr>px = Fin ex, py = Fin ey\<rparr>"
    and "r_current r = r_start r" and "sy < ey" and "0 < r_speed r"
    and "\<not> rocket_arrived ((rocket_move ^^ Suc n) r)"
  shows "nlt (dist_to_end ((rocket_move ^^ Suc n) r)) (dist_to_end ((rocket_move ^^ n) r))"
proof -
  define dx where "dx = ex - sx"
  define dy where "dy = ey - sy"
  define L where "L = sqrt (dx * dx + dy * dy)"
  define s where "s = r_speed r"
  define T where "T = real (Suc n) * s"
  define T0 where "T0 = real n * s"
  from assms(4) have dy: "0 < dy" by (simp add: dy_def)
  then have "dx * dx + dy * dy \<noteq> 0" by (simp add: sum_squares_eq_zero_iff)
  moreover have "0 \<le> dx * dx + dy * dy" by simp
  ultimately have "0 < dx * dx + dy * dy" by linarith
  then have L: "0 < L" unfolding L_def by simp
  have path: "(rocket_move ^^ k) r = r\<lparr>r_current :=
      \<lparr>px = Fin (sx + (real k * s) * (dx / L)), py = Fin (sy + (real k * s) * (dy / L))\<rparr>\<rparr>" for k
    unfolding s_def
    by (rule rocket_path [OF assms(1-4)]) (simp_all only: dx_def dy_def L_def)
  have dist: "dist_to_end ((rocket_move ^^ k) r) = Fin \<bar>L - real k * s\<bar>" for k
  proof -
    have e: "r_end ((rocket_move ^^ k) r) = \<lparr>px = Fin ex, py = Fin ey\<rparr>"
      and c: "r_current ((rocket_move ^^ k) r) =
          \<lparr>px = Fin (sx + (real k * s) * (dx / L)), py = Fin (sy + (real k * s) * (dy / L))\<rparr>"
      unfolding path by (simp_all add: assms(2))
    have x: "ex - (sx + (real k * s) * (dx / L)) = dx - (real k * s) * (dx / L)"
      and y: "ey - (sy + (real k * s) * (dy / L)) = dy - (real k * s) * (dy / L)"
      unfolding dx_def dy_def by linarith+
    show ?thesis
      unfolding dist_to_end_fin [OF e c] x y by (simp only: dist_on_path [OF L_def L])
  qed
  have "r_current ((rocket_move ^^ Suc n) r) =
          \<lparr>px = Fin (sx + T * (dx / L)), py = Fin (sy + T * (dy / L))\<rparr>"
    and "r_end ((rocket_move ^^ Suc n) r) = \<lparr>px = Fin ex, py = Fin ey\<rparr>"
    unfolding path T_def by (simp_all add: assms(2))
  with assms(6) have "sy + T * (dy / L) < ey" by (simp add: rocket_arrived_def)
  moreover have "ey = sy + dy" by (simp add: dy_def)
  ultimately have "T * (dy / L) < dy" by linarith
  then have "T * dy < dy * L" using L by (simp add: field_simps)
  then have far: "T < L" using dy by simp
  have "T0 < T" using assms(5) unfolding T_def T0_def s_def by (simp add: algebra_simps)
  with far have "\<bar>L - T\<bar> < \<bar>L - T0\<bar>" by simp
  then show ?thesis unfolding T_def T0_def by (simp only: dist nlt.simps)
qed

text \<open>
  C8 as stated fails for a rocket whose end lies above its start: its first step leaves it
  short of arrival and takes it from distance 1 to distance 2.
\<close>

theorem rocket_recedes_counterexample:
  "r_start rising \<noteq> r_end rising \<and> 0 < r_speed rising \<and>
   \<not> rocket_arrived (rocket_move rising) \<and>
   dist_to_end rising = Fin 1 \<and> dist_to_end (rocket_move rising) = Fin 2 \<and>
   \<not> nlt (dist_to_end (rocket_move rising)) (dist_to_end rising)"
  by (simp add: rising_def rocket_move_def rocket_arrived_def dist_to_end_def nsub_def Let_def)

theorem rocket_approaches_witness:
  "r_start launched = \<lparr>px = Fin 60, py = Fin 0\<rparr> \<and> r_end launched = \<lparr>px = Fin 60, py = Fin 560\<rparr> \<and>
   r_current launched = r_start launched \<and> (0::real) < 560 \<and> 0 < r_speed launched \<and>
   \<not> rocket_arrived ((rocket_move ^^ Suc 0) launched) \<and>
   nlt (dist_to_end ((rocket_move ^^ Suc 0) launched)) (dist_to_end ((rocket_move ^^ 0) launched))"
proof -
  have a: "r_start launched = \<lparr>px = Fin 60, py = Fin 0\<rparr>"
    and b: "r_end launched = \<lparr>px = Fin 60, py = Fin 560\<rparr>"
    and c: "r_current launched = r_start launched" and e: "0 < r_speed launched"
    by (simp_all add: launched_def)
  have d: "(0::real) < 560" by simp
  have f: "\<not> rocket_arrived ((rocket_move ^^ Suc 0) launched)"
    unfolding launched_move by (simp add: rocket_arrived_def launched_def)
  from rocket_approaches [OF a b c d e f] a b c d e f show ?thesis by simp
qed

end
